theory Spec2Isabelle
  imports Main
begin

section \<open>JavaScript values, property objects and the environment\<close>

text \<open>
  Property values are JavaScript values. A property object (the \<open>properties\<close> argument of
  the tracking calls, \<open>userContext\<close>, \<open>registeredProperties\<close>) is a finite mapping from
  keys to values; a key whose value is \<open>undefined\<close> is still a key of the object, as in
  \<^verbatim>\<open>{a: undefined}\<close>. Where the source accepts a missing argument
  (\<^verbatim>\<open>properties || {}\<close>, \<^verbatim>\<open>if (!properties)\<close>) the argument is an option.
\<close>

datatype jsval =
    Undefined
  | Null
  | VBool bool
  | VNum int
  | VStr string
  | VArr "jsval list"
  | VObj "(string \<times> jsval) list"

type_synonym props = "string \<rightharpoonup> jsval"
type_synonym segments = "string \<rightharpoonup> string"

text \<open>The \<^verbatim>\<open>typeof\<close> operator on the values above.\<close>

fun typeof :: "jsval \<Rightarrow> string" where
  "typeof Undefined = ''undefined''"
| "typeof Null = ''object''"
| "typeof (VBool _) = ''boolean''"
| "typeof (VNum _) = ''number''"
| "typeof (VStr _) = ''string''"
| "typeof (VArr _) = ''object''"
| "typeof (VObj _) = ''object''"

text \<open>Truthiness of an optional string (\<open>undefined\<close>, \<open>null\<close> and \<open>''\<close> are falsy).\<close>

fun truthy :: "string option \<Rightarrow> bool" where
  "truthy None = False"
| "truthy (Some s) = (s \<noteq> [])"

text \<open>
  What the library cannot decide by itself is read from an environment: the built-ins
  \<^verbatim>\<open>JSON.stringify\<close> and \<^verbatim>\<open>String\<close>, the globals that platform detection looks at,
  whether the third-party SDK set-up of each backend throws, the answers of the
  PostHog client to feature-flag queries, and whether its \<open>unregister\<close> throws.
\<close>

record env =
  JSON_stringify :: "jsval \<Rightarrow> string"
  String_conv :: "jsval \<Rightarrow> string"
  navigator_product :: "string option"
  window_defined :: bool
  document_defined :: bool
  countly_sdk_throws :: bool
  posthog_sdk_throws :: bool
  client_getFeatureFlag :: "string \<Rightarrow> jsval"
  client_isFeatureEnabled :: "string \<Rightarrow> bool"
  client_getFeatureFlags :: props
  client_unregister_throws :: bool

text \<open>
  Errors thrown by the library. \<open>init\<close> throws a plain \<^verbatim>\<open>Error\<close> whose message is
  \<^verbatim>\<open>Invalid config: \<close> followed by the validation messages: this is the error the
  specification calls \<open>ConfigurationError\<close>. \<open>setPlatform\<close> throws
  \<^verbatim>\<open>Invalid platform: ...\<close>. \<open>SdkError\<close> is whatever a third-party SDK throws, and
  \<open>TypeError\<close> is the runtime's error for reading a property of \<open>null\<close>.
\<close>

datatype error =
    ConfigurationError "string list"
  | InvalidPlatform string
  | SdkError
  | TypeError

text \<open>
  Calls made into the third-party SDKs. \<open>SDK_init name platform ok\<close> stands for the
  set-up sequence in an adapter's \<open>init\<close> (loading the SDK module and initialising it)
  for provider \<open>name\<close> on \<open>platform\<close>; \<open>ok\<close> tells whether it completed or threw.
\<close>

datatype sdk_call =
    SDK_init string string bool
  | Countly_add_event string segments
  | Countly_track_pageview string segments
  | Countly_recordEvent string segments
  | Countly_recordView string segments
  | PostHog_capture string props
  | PostHog_screen string props

section \<open>Configuration and its validation (utils/helpers.js)\<close>

record countly_config =
  serverUrl :: "string option"
  appKey :: "string option"
  countly_debug :: "bool option"

record posthog_config =
  apiKey :: "string option"
  posthog_debug :: "bool option"

record config =
  platform :: "string option"
  debug :: "bool option"
  trackScreenViews :: "bool option"
  countly :: "countly_config option"
  posthog :: "posthog_config option"

record validation =
  valid :: bool
  errors :: "string list"

definition validateConfig :: "config \<Rightarrow> validation" where
  "validateConfig cfg =
    (let errors1 =
           (if countly cfg = None \<and> posthog cfg = None
            then [''At least one provider (countly or posthog) must be configured'']
            else []);
         errors2 =
           (case countly cfg of
              None \<Rightarrow> []
            | Some c \<Rightarrow>
                (if \<not> truthy (serverUrl c) then [''countly.serverUrl is required''] else []) @
                (if \<not> truthy (appKey c) then [''countly.appKey is required''] else []));
         errors3 =
           (case posthog cfg of
              None \<Rightarrow> []
            | Some p \<Rightarrow>
                (if \<not> truthy (apiKey p) then [''posthog.apiKey is required''] else []));
         errs = errors1 @ errors2 @ errors3
     in \<lparr>valid = (length errs = 0), errors = errs\<rparr>)"

section \<open>Platform resolver (platform.js)\<close>

text \<open>The module variable \<open>currentPlatform\<close> is passed explicitly; \<open>None\<close> is \<open>null\<close>.\<close>

definition autoDetectPlatform :: "env \<Rightarrow> string" where
  "autoDetectPlatform e =
    (if navigator_product e = Some ''ReactNative'' then ''native''
     else if window_defined e \<and> document_defined e then ''web''
     else ''native'')"

definition setPlatform :: "string \<Rightarrow> string option \<Rightarrow> error + string option" where
  "setPlatform p currentPlatform =
    (if p \<noteq> ''web'' \<and> p \<noteq> ''native'' then Inl (InvalidPlatform p)
     else Inr (Some p))"

definition getPlatform :: "env \<Rightarrow> string option \<Rightarrow> string \<times> string option" where
  "getPlatform e currentPlatform =
    (case currentPlatform of
       None \<Rightarrow> (autoDetectPlatform e, Some (autoDetectPlatform e))
     | Some p \<Rightarrow>
         if p = [] then (autoDetectPlatform e, Some (autoDetectPlatform e))
         else (p, Some p))"

section \<open>Adapters\<close>

subsection \<open>BaseProvider: string coercion of segment values\<close>

definition safeString :: "env \<Rightarrow> jsval \<Rightarrow> string" where
  "safeString e v =
    (if v = Null \<or> v = Undefined then []
     else if typeof v = ''object'' then JSON_stringify e v
     else String_conv e v)"

text \<open>
  \<open>stringifyProperties\<close> starts from the empty object \<^verbatim>\<open>{}\<close>, loops over the entries of
  its argument and assigns \<^verbatim>\<open>result[key] = this.safeString(value)\<close>, skipping the entries
  whose value is \<open>undefined\<close>; a missing argument gives the empty object. The assignment
  is an ordinary one: for the key \<^verbatim>\<open>__proto__\<close> it reaches the setter that \<open>result\<close>
  inherits from \<^verbatim>\<open>Object.prototype\<close>, which ignores a string, so no entry is written for
  that key.
\<close>

definition stringifyProperties :: "env \<Rightarrow> props option \<Rightarrow> segments" where
  "stringifyProperties e properties =
    (case properties of
       None \<Rightarrow> Map.empty
     | Some p \<Rightarrow>
         (\<lambda>key. case p key of
                  None \<Rightarrow> None
                | Some v \<Rightarrow>
                    if v \<noteq> Undefined
                    then (if key = ''__proto__'' then None else Some (safeString e v))
                    else None))"

subsection \<open>Countly adapter (CountlyProviderWeb and CountlyProviderNative)\<close>

text \<open>
  The two Countly adapters have the same fields and the same code for the operations
  modelled here, except for the SDK function they end up calling; \<open>c_web\<close> tells which
  class the object is an instance of.
\<close>

record countly_adapter =
  c_web :: bool
  c_initialized :: bool
  c_debug :: bool
  c_config :: "countly_config option"
  userContext :: props

definition new_CountlyAdapter :: "bool \<Rightarrow> countly_adapter" where
  "new_CountlyAdapter is_web =
    \<lparr>c_web = is_web, c_initialized = False, c_debug = False, c_config = None,
     userContext = Map.empty\<rparr>"

definition Countly_init ::
  "env \<Rightarrow> countly_config \<Rightarrow> countly_adapter \<Rightarrow> error option \<times> countly_adapter \<times> sdk_call list"
where
  "Countly_init e cfg a =
    (if c_initialized a then (None, a, [])
     else
       let a1 = a\<lparr>c_config := Some cfg,
                  c_debug := (case countly_debug cfg of Some d \<Rightarrow> d | None \<Rightarrow> False)\<rparr>;
           pf = (if c_web a then ''web'' else ''native'')
       in if countly_sdk_throws e
          then (Some SdkError, a1, [SDK_init ''countly'' pf False])
          else (None, a1\<lparr>c_initialized := True\<rparr>, [SDK_init ''countly'' pf True]))"

definition mergeWithUserContext :: "countly_adapter \<Rightarrow> props option \<Rightarrow> props" where
  "mergeWithUserContext a properties =
    userContext a ++ (case properties of None \<Rightarrow> Map.empty | Some p \<Rightarrow> p)"

definition Countly_trackEvent ::
  "env \<Rightarrow> string \<Rightarrow> props option \<Rightarrow> countly_adapter \<Rightarrow> sdk_call list"
where
  "Countly_trackEvent e name properties a =
    (if \<not> c_initialized a then []
     else
       let mergedProps = mergeWithUserContext a properties;
           segs = stringifyProperties e (Some mergedProps)
       in if c_web a then [Countly_add_event name segs]
          else [Countly_recordEvent name segs])"

definition Countly_trackView ::
  "env \<Rightarrow> string \<Rightarrow> props option \<Rightarrow> countly_adapter \<Rightarrow> sdk_call list"
where
  "Countly_trackView e viewName properties a =
    (if \<not> c_initialized a then []
     else
       let mergedProps = mergeWithUserContext a properties;
           segs = stringifyProperties e (Some mergedProps)
       in if c_web a then [Countly_track_pageview viewName segs]
          else [Countly_recordView viewName segs])"

definition Countly_setUserContext :: "props \<Rightarrow> countly_adapter \<Rightarrow> countly_adapter" where
  "Countly_setUserContext properties a =
    (if \<not> c_initialized a then a
     else a\<lparr>userContext := userContext a ++ properties\<rparr>)"

definition Countly_getUserContext :: "countly_adapter \<Rightarrow> props" where
  "Countly_getUserContext a = Map.empty ++ userContext a"

definition Countly_clearUserContext :: "countly_adapter \<Rightarrow> countly_adapter" where
  "Countly_clearUserContext a = a\<lparr>userContext := Map.empty\<rparr>"

text \<open>
  \<open>reset\<close> clears the user context (the native adapter first switches the SDK to a
  temporary device id, which assigns no field).
\<close>

definition Countly_reset :: "countly_adapter \<Rightarrow> countly_adapter" where
  "Countly_reset a = (if \<not> c_initialized a then a else Countly_clearUserContext a)"

subsection \<open>PostHog adapter (PostHogProviderWeb and PostHogProviderNative)\<close>

text \<open>
  \<open>posthogClient\<close> tells whether the field holds a client object (it is \<open>null\<close>
  until \<open>init\<close> has created one); the client's answers come from the environment.
\<close>

record posthog_adapter =
  p_web :: bool
  p_initialized :: bool
  p_debug :: bool
  p_config :: "posthog_config option"
  posthogClient :: bool
  featureFlagsCallback :: "nat option"
  registeredProperties :: props

definition new_PostHogAdapter :: "bool \<Rightarrow> posthog_adapter" where
  "new_PostHogAdapter is_web =
    \<lparr>p_web = is_web, p_initialized = False, p_debug = False, p_config = None,
     posthogClient = False, featureFlagsCallback = None, registeredProperties = Map.empty\<rparr>"

definition PostHog_init ::
  "env \<Rightarrow> posthog_config \<Rightarrow> posthog_adapter \<Rightarrow> error option \<times> posthog_adapter \<times> sdk_call list"
where
  "PostHog_init e cfg a =
    (if p_initialized a then (None, a, [])
     else
       let a1 = a\<lparr>p_config := Some cfg,
                  p_debug := (case posthog_debug cfg of Some d \<Rightarrow> d | None \<Rightarrow> False)\<rparr>;
           pf = (if p_web a then ''web'' else ''native'')
       in if posthog_sdk_throws e
          then (Some SdkError, a1, [SDK_init ''posthog'' pf False])
          else (None, a1\<lparr>posthogClient := True, p_initialized := True\<rparr>,
                [SDK_init ''posthog'' pf True]))"

definition PostHog_trackEvent :: "string \<Rightarrow> props option \<Rightarrow> posthog_adapter \<Rightarrow> sdk_call list" where
  "PostHog_trackEvent name properties a =
    (if \<not> p_initialized a then []
     else [PostHog_capture name (case properties of None \<Rightarrow> Map.empty | Some p \<Rightarrow> p)])"

definition PostHog_trackView :: "string \<Rightarrow> props option \<Rightarrow> posthog_adapter \<Rightarrow> sdk_call list" where
  "PostHog_trackView viewName properties a =
    (if \<not> p_initialized a then []
     else if p_web a
       then [PostHog_capture ''$pageview''
               ([''$current_url'' \<mapsto> VStr viewName] ++
                (case properties of None \<Rightarrow> Map.empty | Some p \<Rightarrow> p))]
       else [PostHog_screen viewName (case properties of None \<Rightarrow> Map.empty | Some p \<Rightarrow> p)])"

text \<open>
  \<open>register\<close> and \<open>unregister\<close> update \<open>registeredProperties\<close> first and then pass the
  call on to the PostHog client inside the same \<^verbatim>\<open>try\<close>; a failure of the client is
  caught and leaves the updated store in place, so only the store is modelled.
\<close>

definition PostHog_register :: "props \<Rightarrow> posthog_adapter \<Rightarrow> posthog_adapter" where
  "PostHog_register properties a =
    (if \<not> p_initialized a then a
     else a\<lparr>registeredProperties := registeredProperties a ++ properties\<rparr>)"

definition PostHog_unregister :: "string \<Rightarrow> posthog_adapter \<Rightarrow> posthog_adapter" where
  "PostHog_unregister propertyName a =
    (if \<not> p_initialized a then a
     else a\<lparr>registeredProperties := (registeredProperties a)(propertyName := None)\<rparr>)"

text \<open>
  \<open>clearRegisteredProperties\<close> calls the client's \<open>unregister\<close> for every key and then
  empties the store, all inside one \<^verbatim>\<open>try\<close>: if the client throws, the store is left
  as it was.
\<close>

definition PostHog_clearRegisteredProperties :: "env \<Rightarrow> posthog_adapter \<Rightarrow> posthog_adapter" where
  "PostHog_clearRegisteredProperties e a =
    (if \<not> p_initialized a then a
     else if client_unregister_throws e \<and> registeredProperties a \<noteq> Map.empty then a
     else a\<lparr>registeredProperties := Map.empty\<rparr>)"

definition PostHog_getRegisteredProperties :: "posthog_adapter \<Rightarrow> props" where
  "PostHog_getRegisteredProperties a = Map.empty ++ registeredProperties a"

definition PostHog_getFeatureFlag :: "env \<Rightarrow> string \<Rightarrow> posthog_adapter \<Rightarrow> jsval" where
  "PostHog_getFeatureFlag e key a =
    (if \<not> p_initialized a then Undefined else client_getFeatureFlag e key)"

definition PostHog_isFeatureEnabled :: "env \<Rightarrow> string \<Rightarrow> posthog_adapter \<Rightarrow> bool" where
  "PostHog_isFeatureEnabled e key a =
    (if \<not> p_initialized a then False
     else if p_web a then client_isFeatureEnabled e key
     else (let flag = client_getFeatureFlag e key in flag = VBool True \<or> flag = VStr ''true''))"

definition PostHog_getAllFeatureFlags :: "env \<Rightarrow> posthog_adapter \<Rightarrow> props" where
  "PostHog_getAllFeatureFlags e a =
    (if posthogClient a then client_getFeatureFlags e else Map.empty)"

definition PostHog_onFeatureFlags :: "nat \<Rightarrow> posthog_adapter \<Rightarrow> posthog_adapter" where
  "PostHog_onFeatureFlags callback a =
    (if p_web a \<and> \<not> p_initialized a then a
     else a\<lparr>featureFlagsCallback := Some callback\<rparr>)"

section \<open>Provider proxies (CountlyProvider.js, PostHogProvider.js)\<close>

text \<open>
  A proxy holds the adapter it resolved (\<open>_impl\<close>, \<open>null\<close> before \<open>init\<close>) and a debug
  flag. Every delegated method is \<^verbatim>\<open>this._impl?.method(...)\<close>, with the neutral default
  of the source when there is no adapter.
\<close>

record countly_proxy =
  cp_impl :: "countly_adapter option"
  cp_debug :: bool

definition new_CountlyProvider :: countly_proxy where
  "new_CountlyProvider = \<lparr>cp_impl = None, cp_debug = False\<rparr>"

definition CountlyProvider_setDebug :: "bool \<Rightarrow> countly_proxy \<Rightarrow> countly_proxy" where
  "CountlyProvider_setDebug enabled p =
    p\<lparr>cp_debug := enabled,
      cp_impl := map_option (\<lambda>a. a\<lparr>c_debug := enabled\<rparr>) (cp_impl p)\<rparr>"

definition CountlyProvider_init ::
  "env \<Rightarrow> countly_config \<Rightarrow> countly_proxy \<Rightarrow> string option \<Rightarrow>
   error option \<times> countly_proxy \<times> string option \<times> sdk_call list"
where
  "CountlyProvider_init e cfg p currentPlatform =
    (let (pf, currentPlatform1) = getPlatform e currentPlatform;
         impl0 = new_CountlyAdapter (pf = ''web'');
         impl1 = impl0\<lparr>c_debug := cp_debug p\<rparr>;
         (r, impl2, calls) = Countly_init e cfg impl1
     in (r, p\<lparr>cp_impl := Some impl2\<rparr>, currentPlatform1, calls))"

definition CountlyProvider_isInitialized :: "countly_proxy \<Rightarrow> bool" where
  "CountlyProvider_isInitialized p =
    (case cp_impl p of None \<Rightarrow> False | Some a \<Rightarrow> c_initialized a)"

definition CountlyProvider_trackEvent ::
  "env \<Rightarrow> string \<Rightarrow> props option \<Rightarrow> countly_proxy \<Rightarrow> sdk_call list"
where
  "CountlyProvider_trackEvent e name properties p =
    (case cp_impl p of None \<Rightarrow> [] | Some a \<Rightarrow> Countly_trackEvent e name properties a)"

definition CountlyProvider_trackView ::
  "env \<Rightarrow> string \<Rightarrow> props option \<Rightarrow> countly_proxy \<Rightarrow> sdk_call list"
where
  "CountlyProvider_trackView e viewName properties p =
    (case cp_impl p of None \<Rightarrow> [] | Some a \<Rightarrow> Countly_trackView e viewName properties a)"

definition CountlyProvider_setUserContext :: "props \<Rightarrow> countly_proxy \<Rightarrow> countly_proxy" where
  "CountlyProvider_setUserContext properties p =
    p\<lparr>cp_impl := map_option (Countly_setUserContext properties) (cp_impl p)\<rparr>"

definition CountlyProvider_getUserContext :: "countly_proxy \<Rightarrow> props" where
  "CountlyProvider_getUserContext p =
    (case cp_impl p of None \<Rightarrow> Map.empty | Some a \<Rightarrow> Countly_getUserContext a)"

definition CountlyProvider_clearUserContext :: "countly_proxy \<Rightarrow> countly_proxy" where
  "CountlyProvider_clearUserContext p =
    p\<lparr>cp_impl := map_option Countly_clearUserContext (cp_impl p)\<rparr>"

definition CountlyProvider_reset :: "countly_proxy \<Rightarrow> countly_proxy" where
  "CountlyProvider_reset p = p\<lparr>cp_impl := map_option Countly_reset (cp_impl p)\<rparr>"

record posthog_proxy =
  pp_impl :: "posthog_adapter option"
  pp_debug :: bool

definition new_PostHogProvider :: posthog_proxy where
  "new_PostHogProvider = \<lparr>pp_impl = None, pp_debug = False\<rparr>"

definition PostHogProvider_setDebug :: "bool \<Rightarrow> posthog_proxy \<Rightarrow> posthog_proxy" where
  "PostHogProvider_setDebug enabled p =
    p\<lparr>pp_debug := enabled,
      pp_impl := map_option (\<lambda>a. a\<lparr>p_debug := enabled\<rparr>) (pp_impl p)\<rparr>"

definition PostHogProvider_init ::
  "env \<Rightarrow> posthog_config \<Rightarrow> posthog_proxy \<Rightarrow> string option \<Rightarrow>
   error option \<times> posthog_proxy \<times> string option \<times> sdk_call list"
where
  "PostHogProvider_init e cfg p currentPlatform =
    (let (pf, currentPlatform1) = getPlatform e currentPlatform;
         impl0 = new_PostHogAdapter (pf = ''web'');
         impl1 = impl0\<lparr>p_debug := pp_debug p\<rparr>;
         (r, impl2, calls) = PostHog_init e cfg impl1
     in (r, p\<lparr>pp_impl := Some impl2\<rparr>, currentPlatform1, calls))"

definition PostHogProvider_isInitialized :: "posthog_proxy \<Rightarrow> bool" where
  "PostHogProvider_isInitialized p =
    (case pp_impl p of None \<Rightarrow> False | Some a \<Rightarrow> p_initialized a)"

definition PostHogProvider_trackEvent ::
  "string \<Rightarrow> props option \<Rightarrow> posthog_proxy \<Rightarrow> sdk_call list"
where
  "PostHogProvider_trackEvent name properties p =
    (case pp_impl p of None \<Rightarrow> [] | Some a \<Rightarrow> PostHog_trackEvent name properties a)"

definition PostHogProvider_trackView ::
  "string \<Rightarrow> props option \<Rightarrow> posthog_proxy \<Rightarrow> sdk_call list"
where
  "PostHogProvider_trackView viewName properties p =
    (case pp_impl p of None \<Rightarrow> [] | Some a \<Rightarrow> PostHog_trackView viewName properties a)"

definition PostHogProvider_register :: "props \<Rightarrow> posthog_proxy \<Rightarrow> posthog_proxy" where
  "PostHogProvider_register properties p =
    p\<lparr>pp_impl := map_option (PostHog_register properties) (pp_impl p)\<rparr>"

definition PostHogProvider_unregister :: "string \<Rightarrow> posthog_proxy \<Rightarrow> posthog_proxy" where
  "PostHogProvider_unregister propertyName p =
    p\<lparr>pp_impl := map_option (PostHog_unregister propertyName) (pp_impl p)\<rparr>"

definition PostHogProvider_clearRegisteredProperties ::
  "env \<Rightarrow> posthog_proxy \<Rightarrow> posthog_proxy"
where
  "PostHogProvider_clearRegisteredProperties e p =
    p\<lparr>pp_impl := map_option (PostHog_clearRegisteredProperties e) (pp_impl p)\<rparr>"

definition PostHogProvider_getRegisteredProperties :: "posthog_proxy \<Rightarrow> props" where
  "PostHogProvider_getRegisteredProperties p =
    (case pp_impl p of None \<Rightarrow> Map.empty | Some a \<Rightarrow> PostHog_getRegisteredProperties a)"

text \<open>\<^verbatim>\<open>this._impl?.getFeatureFlag(key) ?? undefined\<close> turns \<open>null\<close> into \<open>undefined\<close>.\<close>

definition PostHogProvider_getFeatureFlag :: "env \<Rightarrow> string \<Rightarrow> posthog_proxy \<Rightarrow> jsval" where
  "PostHogProvider_getFeatureFlag e key p =
    (case pp_impl p of
       None \<Rightarrow> Undefined
     | Some a \<Rightarrow>
         (let r = PostHog_getFeatureFlag e key a in if r = Null then Undefined else r))"

definition PostHogProvider_isFeatureEnabled :: "env \<Rightarrow> string \<Rightarrow> posthog_proxy \<Rightarrow> bool" where
  "PostHogProvider_isFeatureEnabled e key p =
    (case pp_impl p of None \<Rightarrow> False | Some a \<Rightarrow> PostHog_isFeatureEnabled e key a)"

definition PostHogProvider_getAllFeatureFlags :: "env \<Rightarrow> posthog_proxy \<Rightarrow> props" where
  "PostHogProvider_getAllFeatureFlags e p =
    (case pp_impl p of None \<Rightarrow> Map.empty | Some a \<Rightarrow> PostHog_getAllFeatureFlags e a)"

definition PostHogProvider_onFeatureFlags :: "nat \<Rightarrow> posthog_proxy \<Rightarrow> posthog_proxy" where
  "PostHogProvider_onFeatureFlags callback p =
    p\<lparr>pp_impl := map_option (PostHog_onFeatureFlags callback) (pp_impl p)\<rparr>"

section \<open>Orchestrator (UnifiedAnalytics.js)\<close>

text \<open>
  The state of the singleton. \<open>routeNameRef\<close> holds a route name or \<open>null\<close>/\<open>undefined\<close>
  (both \<open>None\<close>: the handlers only ever compare it with a route name that they have
  checked to be truthy). \<open>priv_trackScreenViews\<close> is the field \<open>_trackScreenViews\<close>.
  Logging is not modelled.
\<close>

record orchestrator =
  initialized :: bool
  config :: "config option"
  countlyProvider :: "countly_proxy option"
  posthogProvider :: "posthog_proxy option"
  routeNameRef :: "string option"
  screenViewOverrides :: "string \<rightharpoonup> string"
  priv_trackScreenViews :: bool

definition new_UnifiedAnalytics :: orchestrator where
  "new_UnifiedAnalytics =
    \<lparr>initialized = False, config = None, countlyProvider = None, posthogProvider = None,
     routeNameRef = None, screenViewOverrides = Map.empty, priv_trackScreenViews = True\<rparr>"

text \<open>\<^verbatim>\<open>this.countlyProvider?.isInitialized()\<close> and its PostHog twin, as conditions.\<close>

definition countly_active :: "orchestrator \<Rightarrow> bool" where
  "countly_active s =
    (case countlyProvider s of None \<Rightarrow> False | Some p \<Rightarrow> CountlyProvider_isInitialized p)"

definition posthog_active :: "orchestrator \<Rightarrow> bool" where
  "posthog_active s =
    (case posthogProvider s of None \<Rightarrow> False | Some p \<Rightarrow> PostHogProvider_isInitialized p)"

subsection \<open>Initialisation\<close>

text \<open>The two \<^verbatim>\<open>try\<close>/\<^verbatim>\<open>catch\<close> blocks of \<open>init\<close>, one per provider.\<close>

definition init_countly ::
  "env \<Rightarrow> config \<Rightarrow> orchestrator \<Rightarrow> string option \<Rightarrow>
   orchestrator \<times> string option \<times> sdk_call list"
where
  "init_countly e cfg s currentPlatform =
    (case countly cfg of
       None \<Rightarrow> (s, currentPlatform, [])
     | Some ccfg \<Rightarrow>
         (let p0 = new_CountlyProvider;
              p1 = CountlyProvider_setDebug (case debug cfg of Some d \<Rightarrow> d | None \<Rightarrow> False) p0;
              (r, p2, currentPlatform1, calls) = CountlyProvider_init e ccfg p1 currentPlatform
          in case r of
               None \<Rightarrow> (s\<lparr>countlyProvider := Some p2\<rparr>, currentPlatform1, calls)
             | Some err \<Rightarrow> (s\<lparr>countlyProvider := None\<rparr>, currentPlatform1, calls)))"

definition init_posthog ::
  "env \<Rightarrow> config \<Rightarrow> orchestrator \<Rightarrow> string option \<Rightarrow>
   orchestrator \<times> string option \<times> sdk_call list"
where
  "init_posthog e cfg s currentPlatform =
    (case posthog cfg of
       None \<Rightarrow> (s, currentPlatform, [])
     | Some pcfg \<Rightarrow>
         (let p0 = new_PostHogProvider;
              p1 = PostHogProvider_setDebug (case debug cfg of Some d \<Rightarrow> d | None \<Rightarrow> False) p0;
              (r, p2, currentPlatform1, calls) = PostHogProvider_init e pcfg p1 currentPlatform
          in case r of
               None \<Rightarrow> (s\<lparr>posthogProvider := Some p2\<rparr>, currentPlatform1, calls)
             | Some err \<Rightarrow> (s\<lparr>posthogProvider := None\<rparr>, currentPlatform1, calls)))"

text \<open>Step 3 of \<open>init\<close>: \<^verbatim>\<open>if (config.platform) setPlatform(config.platform)\<close>.\<close>

definition init_platform :: "config \<Rightarrow> string option \<Rightarrow> error + string option" where
  "init_platform cfg currentPlatform =
    (case platform cfg of
       None \<Rightarrow> Inr currentPlatform
     | Some pf \<Rightarrow> if pf = [] then Inr currentPlatform else setPlatform pf currentPlatform)"

text \<open>
  \<open>init\<close> is asynchronous: the first component of the result is \<open>None\<close> when the promise
  resolves and \<open>Some err\<close> when it rejects with \<open>err\<close>. The other components are the
  orchestrator and the platform variable after the call, and the SDK calls made.
\<close>

definition init ::
  "env \<Rightarrow> config \<Rightarrow> orchestrator \<Rightarrow> string option \<Rightarrow>
   error option \<times> orchestrator \<times> string option \<times> sdk_call list"
where
  "init e cfg s currentPlatform =
    (if initialized s then (None, s, currentPlatform, [])
     else
       let validation = validateConfig cfg in
       if \<not> valid validation
       then (Some (ConfigurationError (errors validation)), s, currentPlatform, [])
       else
         let s1 = s\<lparr>config := Some cfg\<rparr> in
         case init_platform cfg currentPlatform of
           Inl err \<Rightarrow> (Some err, s1, currentPlatform, [])
         | Inr currentPlatform1 \<Rightarrow>
             (let s2 = s1\<lparr>priv_trackScreenViews := (trackScreenViews cfg \<noteq> Some False)\<rparr>;
                  (s3, currentPlatform2, calls1) = init_countly e cfg s2 currentPlatform1;
                  (s4, currentPlatform3, calls2) = init_posthog e cfg s3 currentPlatform2
              in (None, s4\<lparr>initialized := True\<rparr>, currentPlatform3, calls1 @ calls2)))"

definition isInitialized :: "orchestrator \<Rightarrow> bool" where
  "isInitialized s = initialized s"

definition getEnabledProviders :: "orchestrator \<Rightarrow> string list" where
  "getEnabledProviders s =
    (if countly_active s then [''countly''] else []) @
    (if posthog_active s then [''posthog''] else [])"

definition hasProvider :: "string \<Rightarrow> orchestrator \<Rightarrow> bool" where
  "hasProvider name s =
    (if name = ''countly'' then countly_active s
     else if name = ''posthog'' then posthog_active s
     else False)"

subsection \<open>Tracking and the screen-view switch\<close>

text \<open>
  The tracking operations change no field of the orchestrator or of an adapter; they
  return the state they were given together with the SDK calls they made.
\<close>

definition trackEventToProviders ::
  "env \<Rightarrow> string \<Rightarrow> props option \<Rightarrow> orchestrator \<Rightarrow> orchestrator \<times> sdk_call list"
where
  "trackEventToProviders e name properties s =
    (s,
     (case countlyProvider s of
        None \<Rightarrow> []
      | Some p \<Rightarrow>
          if CountlyProvider_isInitialized p then CountlyProvider_trackEvent e name properties p
          else []) @
     (case posthogProvider s of
        None \<Rightarrow> []
      | Some p \<Rightarrow>
          if PostHogProvider_isInitialized p then PostHogProvider_trackEvent name properties p
          else []))"

definition trackEvent ::
  "env \<Rightarrow> string \<Rightarrow> props option \<Rightarrow> orchestrator \<Rightarrow> orchestrator \<times> sdk_call list"
where
  "trackEvent e name properties s = trackEventToProviders e name properties s"

definition trackView ::
  "env \<Rightarrow> string \<Rightarrow> props option \<Rightarrow> orchestrator \<Rightarrow> orchestrator \<times> sdk_call list"
where
  "trackView e viewName properties s =
    (if \<not> priv_trackScreenViews s then (s, [])
     else
       (s,
        (case countlyProvider s of
           None \<Rightarrow> []
         | Some p \<Rightarrow>
             if CountlyProvider_isInitialized p
             then CountlyProvider_trackView e viewName properties p
             else []) @
        (case posthogProvider s of
           None \<Rightarrow> []
         | Some p \<Rightarrow>
             if PostHogProvider_isInitialized p
             then PostHogProvider_trackView viewName properties p
             else [])))"

definition setScreenViewOverride :: "string \<Rightarrow> string \<Rightarrow> orchestrator \<Rightarrow> orchestrator" where
  "setScreenViewOverride screenName customName s =
    s\<lparr>screenViewOverrides := (screenViewOverrides s)(screenName \<mapsto> customName)\<rparr>"

definition clearScreenViewOverride :: "string \<Rightarrow> orchestrator \<Rightarrow> orchestrator" where
  "clearScreenViewOverride screenName s =
    s\<lparr>screenViewOverrides := (screenViewOverrides s)(screenName := None)\<rparr>"

definition setTrackScreenViews :: "bool \<Rightarrow> orchestrator \<Rightarrow> orchestrator" where
  "setTrackScreenViews enabled s = s\<lparr>priv_trackScreenViews := enabled\<rparr>"

subsection \<open>Navigation handlers\<close>

text \<open>
  \<open>onStateChange\<close> reads the current route name from the navigation ref
  (\<^verbatim>\<open>navigationRef.current?.getCurrentRoute()?.name\<close>); it is the argument
  \<open>currentRouteName\<close>, \<open>None\<close> when there is no route.
\<close>

definition onReady :: "string option \<Rightarrow> orchestrator \<Rightarrow> orchestrator" where
  "onReady currentRouteName s =
    s\<lparr>routeNameRef := (if truthy currentRouteName then currentRouteName else None)\<rparr>"

definition onStateChange ::
  "env \<Rightarrow> string option \<Rightarrow> orchestrator \<Rightarrow> orchestrator \<times> sdk_call list"
where
  "onStateChange e currentRouteName s =
    (let previousRouteName = routeNameRef s;
         (s1, calls) =
           (case currentRouteName of
              None \<Rightarrow> (s, [])
            | Some cur \<Rightarrow>
                if previousRouteName \<noteq> currentRouteName \<and> cur \<noteq> [] then
                  (case screenViewOverrides s cur of
                     None \<Rightarrow> trackView e cur None s
                   | Some customName \<Rightarrow>
                       if customName \<noteq> [] then
                         (let (s', calls') = trackView e customName None s
                          in (s'\<lparr>screenViewOverrides := (screenViewOverrides s')(cur := None)\<rparr>,
                              calls'))
                       else trackView e cur None s)
                else (s, []))
     in (s1\<lparr>routeNameRef := currentRouteName\<rparr>, calls))"

text \<open>
  The web handler keeps the previous path in a variable of its closure; the handler's
  state is the pair of the orchestrator and that variable (initially \<open>null\<close>).
\<close>

definition onRouteChange ::
  "env \<Rightarrow> string option \<Rightarrow> orchestrator \<times> string option \<Rightarrow>
   (orchestrator \<times> string option) \<times> sdk_call list"
where
  "onRouteChange e url st =
    (let (s, previousPath) = st in
     case url of
       None \<Rightarrow> ((s, previousPath), [])
     | Some u \<Rightarrow>
         if u \<noteq> [] \<and> url \<noteq> previousPath then
           (let (s1, calls) =
                  (case screenViewOverrides s u of
                     None \<Rightarrow> trackView e u None s
                   | Some customName \<Rightarrow>
                       if customName \<noteq> [] then
                         (let (s', calls') = trackView e customName None s
                          in (s'\<lparr>screenViewOverrides := (screenViewOverrides s')(u := None)\<rparr>,
                              calls'))
                       else trackView e u None s)
            in ((s1, url), calls))
         else ((s, previousPath), []))"

subsection \<open>Global properties\<close>

definition setGlobalProperties :: "props \<Rightarrow> orchestrator \<Rightarrow> orchestrator" where
  "setGlobalProperties properties s =
    (let s1 = (case countlyProvider s of
                 None \<Rightarrow> s
               | Some p \<Rightarrow>
                   if CountlyProvider_isInitialized p
                   then s\<lparr>countlyProvider := Some (CountlyProvider_setUserContext properties p)\<rparr>
                   else s)
     in case posthogProvider s1 of
          None \<Rightarrow> s1
        | Some p \<Rightarrow>
            if PostHogProvider_isInitialized p
            then s1\<lparr>posthogProvider := Some (PostHogProvider_register properties p)\<rparr>
            else s1)"

definition getGlobalProperties :: "orchestrator \<Rightarrow> props" where
  "getGlobalProperties s =
    (let viaPostHog =
           (case posthogProvider s of
              None \<Rightarrow> Map.empty
            | Some p \<Rightarrow>
                if PostHogProvider_isInitialized p
                then PostHogProvider_getRegisteredProperties p
                else Map.empty)
     in case countlyProvider s of
          None \<Rightarrow> viaPostHog
        | Some p \<Rightarrow>
            if CountlyProvider_isInitialized p then CountlyProvider_getUserContext p
            else viaPostHog)"

text \<open>
  For Countly, \<open>removeGlobalProperty\<close> reads a copy of the context, deletes the key from
  the copy and hands the copy to \<open>setUserContext\<close>.
\<close>

definition removeGlobalProperty :: "string \<Rightarrow> orchestrator \<Rightarrow> orchestrator" where
  "removeGlobalProperty key s =
    (let s1 = (case countlyProvider s of
                 None \<Rightarrow> s
               | Some p \<Rightarrow>
                   if CountlyProvider_isInitialized p then
                     (let current = CountlyProvider_getUserContext p;
                          current1 = current(key := None)
                      in s\<lparr>countlyProvider := Some (CountlyProvider_setUserContext current1 p)\<rparr>)
                   else s)
     in case posthogProvider s1 of
          None \<Rightarrow> s1
        | Some p \<Rightarrow>
            if PostHogProvider_isInitialized p
            then s1\<lparr>posthogProvider := Some (PostHogProvider_unregister key p)\<rparr>
            else s1)"

definition clearGlobalProperties :: "env \<Rightarrow> orchestrator \<Rightarrow> orchestrator" where
  "clearGlobalProperties e s =
    (let s1 = (case countlyProvider s of
                 None \<Rightarrow> s
               | Some p \<Rightarrow>
                   if CountlyProvider_isInitialized p
                   then s\<lparr>countlyProvider := Some (CountlyProvider_clearUserContext p)\<rparr>
                   else s)
     in case posthogProvider s1 of
          None \<Rightarrow> s1
        | Some p \<Rightarrow>
            if PostHogProvider_isInitialized p
            then s1\<lparr>posthogProvider := Some (PostHogProvider_clearRegisteredProperties e p)\<rparr>
            else s1)"

text \<open>
  \<open>reset\<close> calls \<open>reset\<close> on each active provider; the PostHog adapters pass it on to
  the client and assign no field.
\<close>

definition reset :: "orchestrator \<Rightarrow> orchestrator" where
  "reset s =
    (case countlyProvider s of
       None \<Rightarrow> s
     | Some p \<Rightarrow>
         if CountlyProvider_isInitialized p
         then s\<lparr>countlyProvider := Some (CountlyProvider_reset p)\<rparr>
         else s)"

subsection \<open>Feature flags\<close>

text \<open>
  When PostHog is not active, \<open>getFeatureFlag\<close> evaluates \<^verbatim>\<open>this.config.debug\<close> before
  it returns \<open>null\<close>; the value only decides about a log line, but reading it throws
  when \<open>config\<close> is still \<open>null\<close>.
\<close>

definition getFeatureFlag :: "env \<Rightarrow> string \<Rightarrow> orchestrator \<Rightarrow> error + jsval" where
  "getFeatureFlag e key s =
    (let notSupported = (case config s of None \<Rightarrow> Inl TypeError | Some cfg \<Rightarrow> Inr Null)
     in case posthogProvider s of
          None \<Rightarrow> notSupported
        | Some p \<Rightarrow>
            if PostHogProvider_isInitialized p then Inr (PostHogProvider_getFeatureFlag e key p)
            else notSupported)"

definition isFeatureEnabled :: "env \<Rightarrow> string \<Rightarrow> orchestrator \<Rightarrow> bool" where
  "isFeatureEnabled e key s =
    (case posthogProvider s of
       None \<Rightarrow> False
     | Some p \<Rightarrow>
         if PostHogProvider_isInitialized p then PostHogProvider_isFeatureEnabled e key p
         else False)"

definition getAllFeatureFlags :: "env \<Rightarrow> orchestrator \<Rightarrow> props" where
  "getAllFeatureFlags e s =
    (case posthogProvider s of
       None \<Rightarrow> Map.empty
     | Some p \<Rightarrow>
         if PostHogProvider_isInitialized p then PostHogProvider_getAllFeatureFlags e p
         else Map.empty)"

text \<open>
  What \<open>onFeatureFlagsChange\<close> returns: the function \<^verbatim>\<open>() => {}\<close>, or the result of the
  proxy's \<open>onFeatureFlags\<close>, which returns nothing.
\<close>

datatype unsubscribe = NoopFunction | NoValue

definition onFeatureFlagsChange :: "nat \<Rightarrow> orchestrator \<Rightarrow> unsubscribe \<times> orchestrator" where
  "onFeatureFlagsChange callback s =
    (case posthogProvider s of
       None \<Rightarrow> (NoopFunction, s)
     | Some p \<Rightarrow>
         if PostHogProvider_isInitialized p
         then (NoValue, s\<lparr>posthogProvider := Some (PostHogProvider_onFeatureFlags callback p)\<rparr>)
         else (NoopFunction, s))"

section \<open>Reading the SDK calls\<close>

text \<open>The provider an SDK call went to, the view a call reports, and the segments sent.\<close>

fun provider_of :: "sdk_call \<Rightarrow> string" where
  "provider_of (SDK_init name pf ok) = name"
| "provider_of (Countly_add_event name segs) = ''countly''"
| "provider_of (Countly_track_pageview name segs) = ''countly''"
| "provider_of (Countly_recordEvent name segs) = ''countly''"
| "provider_of (Countly_recordView name segs) = ''countly''"
| "provider_of (PostHog_capture name properties) = ''posthog''"
| "provider_of (PostHog_screen name properties) = ''posthog''"

fun view_name :: "sdk_call \<Rightarrow> string option" where
  "view_name (Countly_track_pageview name segs) = Some name"
| "view_name (Countly_recordView name segs) = Some name"
| "view_name (PostHog_screen name properties) = Some name"
| "view_name (PostHog_capture name properties) =
     (if name = ''$pageview''
      then (case properties ''$current_url'' of Some (VStr url) \<Rightarrow> Some url | _ \<Rightarrow> None)
      else None)"
| "view_name _ = None"


section \<open>Sequences of navigation transitions\<close>

text \<open>
  The navigation library fires the handler once per transition; a run is the list of
  route names (or URLs) it reports, in order.
\<close>

fun run_onStateChange ::
  "env \<Rightarrow> string option list \<Rightarrow> orchestrator \<Rightarrow> orchestrator \<times> sdk_call list"
where
  "run_onStateChange e [] s = (s, [])"
| "run_onStateChange e (r # rs) s =
     (let (s1, calls1) = onStateChange e r s;
          (s2, calls2) = run_onStateChange e rs s1
      in (s2, calls1 @ calls2))"

fun run_onRouteChange ::
  "env \<Rightarrow> string option list \<Rightarrow> orchestrator \<times> string option \<Rightarrow>
   (orchestrator \<times> string option) \<times> sdk_call list"
where
  "run_onRouteChange e [] st = (st, [])"
| "run_onRouteChange e (u # us) st =
     (let (st1, calls1) = onRouteChange e u st;
          (st2, calls2) = run_onRouteChange e us st1
      in (st2, calls1 @ calls2))"

text \<open>A run of \<open>trackView\<close> calls, each with its view name and properties.\<close>

fun run_trackView ::
  "env \<Rightarrow> (string \<times> props option) list \<Rightarrow> orchestrator \<Rightarrow> orchestrator \<times> sdk_call list"
where
  "run_trackView e [] s = (s, [])"
| "run_trackView e (v # vs) s =
     (let (s1, calls1) = trackView e (fst v) (snd v) s;
          (s2, calls2) = run_trackView e vs s1
      in (s2, calls1 @ calls2))"

section \<open>Runs of operations\<close>

text \<open>
  What an application can do between two calls: any public method of the orchestrator,
  a call of a navigation handler, or \<open>setPlatform\<close>/\<open>getPlatform\<close>. The state these act on
  is the orchestrator, the module variable \<open>currentPlatform\<close>, and the \<open>previousPath\<close>
  variable of each handler that \<open>createWebNavigationHandlers\<close> has returned (handlers
  are numbered; each starts with \<open>null\<close>). A run is a sequence of calls each of which has
  completed before the next is made; for \<open>init\<close>, which is asynchronous, this means that
  its promise has settled.
\<close>

record world =
  w_orch :: orchestrator
  w_currentPlatform :: "string option"
  w_previousPath :: "nat \<Rightarrow> string option"

text \<open>
  The operations. Arguments are left out where the operation assigns no field whatever
  they are: \<open>identify\<close>, \<open>setUserProperties\<close>, \<open>startTimer\<close>, \<open>endTimer\<close> and \<open>trackError\<close>
  only call into the providers, whose adapters pass these calls on to the SDK;
  \<open>startSession\<close> and \<open>endSession\<close> only log; \<open>createNavigationHandlers\<close> stores the
  navigation ref in a field that no method reads; the reading methods, and the getters
  \<open>countly\<close> and \<open>posthog\<close> (\<open>GetCountly\<close>, \<open>GetPosthog\<close>), return a value.
\<close>

datatype op =
    Init config
  | IsInitialized
  | GetEnabledProviders
  | HasProvider string
  | TrackEvent string "props option"
  | TrackView string "props option"
  | SetScreenViewOverride string string
  | ClearScreenViewOverride string
  | SetTrackScreenViews bool
  | Identify
  | SetUserProperties
  | Reset
  | SetGlobalProperties props
  | GetGlobalProperties
  | ClearGlobalProperties
  | RemoveGlobalProperty string
  | StartTimer
  | EndTimer
  | TrackError
  | GetFeatureFlag string
  | IsFeatureEnabled string
  | GetAllFeatureFlags
  | OnFeatureFlagsChange nat
  | StartSession
  | EndSession
  | CreateNavigationHandlers
  | OnReady "string option"
  | OnStateChange "string option"
  | CreateWebNavigationHandlers
  | OnRouteChange nat "string option"
  | GetCountly
  | GetPosthog
  | SetPlatform string
  | GetPlatform

text \<open>The state after an operation (its result and its SDK calls are not kept).\<close>

fun apply_op :: "env \<Rightarrow> op \<Rightarrow> world \<Rightarrow> world" where
  "apply_op e (Init cfg) w =
     (case init e cfg (w_orch w) (w_currentPlatform w) of
        (r, s, cur, calls) \<Rightarrow> w\<lparr>w_orch := s, w_currentPlatform := cur\<rparr>)"
| "apply_op e IsInitialized w = w"
| "apply_op e GetEnabledProviders w = w"
| "apply_op e (HasProvider name) w = w"
| "apply_op e (TrackEvent name properties) w =
     w\<lparr>w_orch := fst (trackEvent e name properties (w_orch w))\<rparr>"
| "apply_op e (TrackView viewName properties) w =
     w\<lparr>w_orch := fst (trackView e viewName properties (w_orch w))\<rparr>"
| "apply_op e (SetScreenViewOverride screenName customName) w =
     w\<lparr>w_orch := setScreenViewOverride screenName customName (w_orch w)\<rparr>"
| "apply_op e (ClearScreenViewOverride screenName) w =
     w\<lparr>w_orch := clearScreenViewOverride screenName (w_orch w)\<rparr>"
| "apply_op e (SetTrackScreenViews enabled) w =
     w\<lparr>w_orch := setTrackScreenViews enabled (w_orch w)\<rparr>"
| "apply_op e Identify w = w"
| "apply_op e SetUserProperties w = w"
| "apply_op e Reset w = w\<lparr>w_orch := reset (w_orch w)\<rparr>"
| "apply_op e (SetGlobalProperties properties) w =
     w\<lparr>w_orch := setGlobalProperties properties (w_orch w)\<rparr>"
| "apply_op e GetGlobalProperties w = w"
| "apply_op e ClearGlobalProperties w = w\<lparr>w_orch := clearGlobalProperties e (w_orch w)\<rparr>"
| "apply_op e (RemoveGlobalProperty key) w =
     w\<lparr>w_orch := removeGlobalProperty key (w_orch w)\<rparr>"
| "apply_op e StartTimer w = w"
| "apply_op e EndTimer w = w"
| "apply_op e TrackError w = w"
| "apply_op e (GetFeatureFlag key) w = w"
| "apply_op e (IsFeatureEnabled key) w = w"
| "apply_op e GetAllFeatureFlags w = w"
| "apply_op e (OnFeatureFlagsChange callback) w =
     w\<lparr>w_orch := snd (onFeatureFlagsChange callback (w_orch w))\<rparr>"
| "apply_op e StartSession w = w"
| "apply_op e EndSession w = w"
| "apply_op e CreateNavigationHandlers w = w"
| "apply_op e (OnReady currentRouteName) w =
     w\<lparr>w_orch := onReady currentRouteName (w_orch w)\<rparr>"
| "apply_op e (OnStateChange currentRouteName) w =
     w\<lparr>w_orch := fst (onStateChange e currentRouteName (w_orch w))\<rparr>"
| "apply_op e CreateWebNavigationHandlers w = w"
| "apply_op e (OnRouteChange n url) w =
     (case onRouteChange e url (w_orch w, w_previousPath w n) of
        ((s, previousPath), calls) \<Rightarrow>
          w\<lparr>w_orch := s, w_previousPath := (w_previousPath w)(n := previousPath)\<rparr>)"
| "apply_op e GetCountly w = w"
| "apply_op e GetPosthog w = w"
| "apply_op e (SetPlatform pf) w =
     (case setPlatform pf (w_currentPlatform w) of
        Inl err \<Rightarrow> w
      | Inr cur \<Rightarrow> w\<lparr>w_currentPlatform := cur\<rparr>)"
| "apply_op e GetPlatform w =
     w\<lparr>w_currentPlatform := snd (getPlatform e (w_currentPlatform w))\<rparr>"

fun run :: "env \<Rightarrow> op list \<Rightarrow> world \<Rightarrow> world" where
  "run e [] w = w"
| "run e (x # xs) w = run e xs (apply_op e x w)"

text \<open>
  \<open>undisturbed X e xs w\<close>: in the run of \<open>xs\<close> from \<open>w\<close>, no operation is of the kind \<open>X\<close>
  in the state in which it is called.
\<close>

fun undisturbed :: "(op \<Rightarrow> world \<Rightarrow> bool) \<Rightarrow> env \<Rightarrow> op list \<Rightarrow> world \<Rightarrow> bool" where
  "undisturbed X e [] w = True"
| "undisturbed X e (x # xs) w = (\<not> X x w \<and> undisturbed X e xs (apply_op e x w))"

text \<open>
  The operations that write \<open>_trackScreenViews\<close>: \<open>setTrackScreenViews\<close>, and an \<open>init\<close>
  that gets as far as \<^verbatim>\<open>this._trackScreenViews = config.trackScreenViews !== false\<close>,
  that is, on an orchestrator not yet initialised, with a configuration that passes
  validation and a platform that \<open>setPlatform\<close> accepts. \<open>switches_on\<close> are those that
  write \<open>true\<close>, \<open>switches_off\<close> those that write \<open>false\<close>.
\<close>

definition init_reaches_switch :: "config \<Rightarrow> world \<Rightarrow> bool" where
  "init_reaches_switch cfg w =
    (\<not> initialized (w_orch w) \<and> valid (validateConfig cfg) \<and>
     (case init_platform cfg (w_currentPlatform w) of Inl err \<Rightarrow> False | Inr cur \<Rightarrow> True))"

fun switches_on :: "op \<Rightarrow> world \<Rightarrow> bool" where
  "switches_on (SetTrackScreenViews enabled) w = enabled"
| "switches_on (Init cfg) w = (init_reaches_switch cfg w \<and> trackScreenViews cfg \<noteq> Some False)"
| "switches_on x w = False"

fun switches_off :: "op \<Rightarrow> world \<Rightarrow> bool" where
  "switches_off (SetTrackScreenViews enabled) w = (\<not> enabled)"
| "switches_off (Init cfg) w = (init_reaches_switch cfg w \<and> trackScreenViews cfg = Some False)"
| "switches_off x w = False"

text \<open>
  The operations that can take the override of a screen away or replace it: clearing
  it, registering the screen again, and a navigation transition to the screen (a call
  of a handler with the screen as the new route, coming from another route).
\<close>

fun reregisters :: "string \<Rightarrow> op \<Rightarrow> world \<Rightarrow> bool" where
  "reregisters scr (SetScreenViewOverride screenName customName) w = (screenName = scr)"
| "reregisters scr (ClearScreenViewOverride screenName) w = (screenName = scr)"
| "reregisters scr x w = False"

fun touches_override :: "string \<Rightarrow> op \<Rightarrow> world \<Rightarrow> bool" where
  "touches_override scr (SetScreenViewOverride screenName customName) w = (screenName = scr)"
| "touches_override scr (ClearScreenViewOverride screenName) w = (screenName = scr)"
| "touches_override scr (OnStateChange currentRouteName) w =
     (currentRouteName = Some scr \<and> routeNameRef (w_orch w) \<noteq> Some scr)"
| "touches_override scr (OnRouteChange n url) w =
     (url = Some scr \<and> w_previousPath w n \<noteq> Some scr)"
| "touches_override scr x w = False"

section \<open>Object identity on the read path of the global properties\<close>

text \<open>
  Whether a caller can reach an adapter's store through the object that a read returns
  depends on object identity, which the definitions above do not show. Here objects
  live in a store, and a property holds a primitive value or a reference to an object
  (nested objects and arrays are objects of their own). \<open>new_object\<close> is an object
  literal, and \<open>spread\<close> is \<^verbatim>\<open>{ ...o }\<close>: a new object with the entries of \<open>o\<close>, a
  reference being copied as a reference.
\<close>

type_synonym ref = nat

datatype hval = HUndefined | HNull | HBool bool | HNum int | HStr string | HRef ref

type_synonym object = "string \<rightharpoonup> hval"
type_synonym store = "object list"

definition contents :: "store \<Rightarrow> ref \<Rightarrow> object" where
  "contents h r = (if r < length h then h ! r else Map.empty)"

definition new_object :: "object \<Rightarrow> store \<Rightarrow> ref \<times> store" where
  "new_object obj h = (length h, h @ [obj])"

definition spread :: "ref \<Rightarrow> store \<Rightarrow> ref \<times> store" where
  "spread r h = new_object (Map.empty ++ contents h r) h"

record countly_adapter_ref =
  cr_initialized :: bool
  cr_userContext :: ref

record posthog_adapter_ref =
  pr_initialized :: bool
  pr_registeredProperties :: ref

record countly_proxy_ref =
  cpr_impl :: "countly_adapter_ref option"

record posthog_proxy_ref =
  ppr_impl :: "posthog_adapter_ref option"

record orchestrator_ref =
  countlyProvider_ref :: "countly_proxy_ref option"
  posthogProvider_ref :: "posthog_proxy_ref option"

definition Countly_getUserContext_ref :: "countly_adapter_ref \<Rightarrow> store \<Rightarrow> ref \<times> store" where
  "Countly_getUserContext_ref a h = spread (cr_userContext a) h"

definition PostHog_getRegisteredProperties_ref ::
  "posthog_adapter_ref \<Rightarrow> store \<Rightarrow> ref \<times> store"
where
  "PostHog_getRegisteredProperties_ref a h = spread (pr_registeredProperties a) h"

definition CountlyProvider_getUserContext_ref ::
  "countly_proxy_ref \<Rightarrow> store \<Rightarrow> ref \<times> store"
where
  "CountlyProvider_getUserContext_ref p h =
    (case cpr_impl p of
       None \<Rightarrow> new_object Map.empty h
     | Some a \<Rightarrow> Countly_getUserContext_ref a h)"

definition PostHogProvider_getRegisteredProperties_ref ::
  "posthog_proxy_ref \<Rightarrow> store \<Rightarrow> ref \<times> store"
where
  "PostHogProvider_getRegisteredProperties_ref p h =
    (case ppr_impl p of
       None \<Rightarrow> new_object Map.empty h
     | Some a \<Rightarrow> PostHog_getRegisteredProperties_ref a h)"

definition CountlyProvider_isInitialized_ref :: "countly_proxy_ref \<Rightarrow> bool" where
  "CountlyProvider_isInitialized_ref p =
    (case cpr_impl p of None \<Rightarrow> False | Some a \<Rightarrow> cr_initialized a)"

definition PostHogProvider_isInitialized_ref :: "posthog_proxy_ref \<Rightarrow> bool" where
  "PostHogProvider_isInitialized_ref p =
    (case ppr_impl p of None \<Rightarrow> False | Some a \<Rightarrow> pr_initialized a)"

definition getGlobalProperties_ref :: "orchestrator_ref \<Rightarrow> store \<Rightarrow> ref \<times> store" where
  "getGlobalProperties_ref s h =
    (let viaPostHog =
           (case posthogProvider_ref s of
              None \<Rightarrow> new_object Map.empty h
            | Some p \<Rightarrow>
                if PostHogProvider_isInitialized_ref p
                then PostHogProvider_getRegisteredProperties_ref p h
                else new_object Map.empty h)
     in case countlyProvider_ref s of
          None \<Rightarrow> viaPostHog
        | Some p \<Rightarrow>
            if CountlyProvider_isInitialized_ref p then CountlyProvider_getUserContext_ref p h
            else viaPostHog)"

text \<open>
  The store that \<open>getGlobalProperties\<close> reads, by the same branches as the method: that
  of the first active provider, Countly before PostHog, and \<open>None\<close> where the method
  returns an object literal \<^verbatim>\<open>{}\<close>.
\<close>

definition first_active_store :: "orchestrator_ref \<Rightarrow> ref option" where
  "first_active_store s =
    (let viaPostHog =
           (case posthogProvider_ref s of
              None \<Rightarrow> None
            | Some p \<Rightarrow>
                (case ppr_impl p of
                   None \<Rightarrow> None
                 | Some a \<Rightarrow> if pr_initialized a then Some (pr_registeredProperties a) else None))
     in case countlyProvider_ref s of
          None \<Rightarrow> viaPostHog
        | Some p \<Rightarrow>
            (case cpr_impl p of
               None \<Rightarrow> viaPostHog
             | Some a \<Rightarrow> if cr_initialized a then Some (cr_userContext a) else viaPostHog))"

text \<open>
  What a caller can do with the object \<open>g\<close> it was handed. \<open>resolve h r path\<close> is the
  object \<^verbatim>\<open>g.k1.k2...kn\<close> reached from \<open>r\<close> through own properties that hold
  references. \<open>assign_key\<close> is \<^verbatim>\<open>o[key] = v\<close>: it writes the own property, except that for
  the key \<^verbatim>\<open>__proto__\<close> on an object without an own property of that name it reaches
  the inherited setter and writes no own property. \<open>delete_key\<close> is \<^verbatim>\<open>delete o[key]\<close>.
  A mutation names the path to the object it changes; the path \<open>[]\<close> is the returned
  object itself. A mutation whose path does not lead to an object changes nothing.
\<close>

fun resolve :: "store \<Rightarrow> ref \<Rightarrow> string list \<Rightarrow> ref option" where
  "resolve h r [] = Some r"
| "resolve h r (k # ks) =
     (case contents h r k of
        Some (HRef a) \<Rightarrow> resolve h a ks
      | _ \<Rightarrow> None)"

definition assign_key :: "ref \<Rightarrow> string \<Rightarrow> hval \<Rightarrow> store \<Rightarrow> store" where
  "assign_key a key v h =
    (if a < length h
     then (if key = ''__proto__'' \<and> (h ! a) key = None then h
           else h[a := (h ! a)(key \<mapsto> v)])
     else h)"

definition delete_key :: "ref \<Rightarrow> string \<Rightarrow> store \<Rightarrow> store" where
  "delete_key a key h = (if a < length h then h[a := (h ! a)(key := None)] else h)"

datatype mutation = Assign "string list" string hval | Delete "string list" string

fun mutate1 :: "ref \<Rightarrow> mutation \<Rightarrow> store \<Rightarrow> store" where
  "mutate1 r (Assign path key v) h =
     (case resolve h r path of None \<Rightarrow> h | Some a \<Rightarrow> assign_key a key v h)"
| "mutate1 r (Delete path key) h =
     (case resolve h r path of None \<Rightarrow> h | Some a \<Rightarrow> delete_key a key h)"

fun mutate :: "ref \<Rightarrow> mutation list \<Rightarrow> store \<Rightarrow> store" where
  "mutate r [] h = h"
| "mutate r (m # ms) h = mutate r ms (mutate1 r m h)"

text \<open>A mutation of the returned object itself, as opposed to one of a nested object.\<close>

fun top_level :: "mutation \<Rightarrow> bool" where
  "top_level (Assign path key v) = (path = [])"
| "top_level (Delete path key) = (path = [])"

text \<open>Reading \<^verbatim>\<open>o.k1...kn.key\<close>.\<close>

definition property :: "store \<Rightarrow> ref \<Rightarrow> string list \<Rightarrow> string \<Rightarrow> hval option" where
  "property h r path key =
    (case resolve h r path of None \<Rightarrow> None | Some a \<Rightarrow> contents h a key)"

text \<open>
  The references an orchestrator state holds to provider stores, and the condition
  that they point into the store.
\<close>

definition store_refs :: "orchestrator_ref \<Rightarrow> ref list" where
  "store_refs s =
    (case countlyProvider_ref s of
       None \<Rightarrow> []
     | Some p \<Rightarrow> (case cpr_impl p of None \<Rightarrow> [] | Some a \<Rightarrow> [cr_userContext a])) @
    (case posthogProvider_ref s of
       None \<Rightarrow> []
     | Some p \<Rightarrow> (case ppr_impl p of None \<Rightarrow> [] | Some a \<Rightarrow> [pr_registeredProperties a]))"

definition allocated :: "store \<Rightarrow> ref list \<Rightarrow> bool" where
  "allocated h rs = list_all (\<lambda>r. r < length h) rs"

section \<open>Sample inputs\<close>

text \<open>
  A browser environment in which both SDKs load, with stand-ins for the two built-ins,
  and a configuration with both providers; used to run the definitions on concrete
  inputs.
\<close>

definition sample_env :: env where
  "sample_env =
    \<lparr>JSON_stringify = (\<lambda>v. ''{}''),
     String_conv = (\<lambda>v. case v of VStr str \<Rightarrow> str | _ \<Rightarrow> ''0''),
     navigator_product = None,
     window_defined = True,
     document_defined = True,
     countly_sdk_throws = False,
     posthog_sdk_throws = False,
     client_getFeatureFlag = (\<lambda>key. Undefined),
     client_isFeatureEnabled = (\<lambda>key. False),
     client_getFeatureFlags = Map.empty,
     client_unregister_throws = False\<rparr>"

definition sample_config :: config where
  "sample_config =
    \<lparr>platform = None, debug = None, trackScreenViews = None,
     countly = Some \<lparr>serverUrl = Some ''https://countly.example'', appKey = Some ''key'',
                     countly_debug = None\<rparr>,
     posthog = Some \<lparr>apiKey = Some ''phc_key'', posthog_debug = None\<rparr>\<rparr>"

definition countly_only_config :: config where
  "countly_only_config = sample_config\<lparr>posthog := None\<rparr>"


text \<open>The orchestrator after a successful \<open>init\<close> with both providers, and with Countly only.\<close>

definition sample_state :: orchestrator where
  "sample_state = fst (snd (init sample_env sample_config new_UnifiedAnalytics None))"

definition countly_only_state :: orchestrator where
  "countly_only_state = fst (snd (init sample_env countly_only_config new_UnifiedAnalytics None))"

text \<open>
  A store with the Countly context at address 0, the PostHog properties at address 1
  and, at address 2, the object that the context's \<open>user\<close> property refers to; and the
  orchestrator whose two adapters, both initialised, hold the first two addresses.
\<close>

definition sample_store :: store where
  "sample_store =
    [[''plan'' \<mapsto> HStr ''pro'', ''user'' \<mapsto> HRef (Suc (Suc 0))],
     [''tier'' \<mapsto> HNum 2],
     [''id'' \<mapsto> HNum 1]]"

definition sample_state_ref :: orchestrator_ref where
  "sample_state_ref =
    \<lparr>countlyProvider_ref =
       Some \<lparr>cpr_impl = Some \<lparr>cr_initialized = True, cr_userContext = 0\<rparr>\<rparr>,
     posthogProvider_ref =
       Some \<lparr>ppr_impl = Some \<lparr>pr_initialized = True, pr_registeredProperties = Suc 0\<rparr>\<rparr>\<rparr>"

text \<open>The world around an orchestrator, before any platform or web handler was used.\<close>

definition world_of :: "orchestrator \<Rightarrow> world" where
  "world_of s = \<lparr>w_orch = s, w_currentPlatform = None, w_previousPath = (\<lambda>n. None)\<rparr>"

section \<open>Initialisation: validation and failure isolation\<close>

subsection \<open>What each step of \<open>init\<close> computes\<close>

lemma init_countly_result:
  assumes "countly cfg = Some c"
  shows "init_countly e cfg s cur =
    (if countly_sdk_throws e
     then (s\<lparr>countlyProvider := None\<rparr>, snd (getPlatform e cur),
           [SDK_init ''countly'' (if fst (getPlatform e cur) = ''web'' then ''web'' else ''native'') False])
     else (s\<lparr>countlyProvider := Some
              \<lparr>cp_impl = Some \<lparr>c_web = (fst (getPlatform e cur) = ''web''), c_initialized = True,
                   c_debug = (case countly_debug c of Some d \<Rightarrow> d | None \<Rightarrow> False),
                   c_config = Some c, userContext = Map.empty\<rparr>,
               cp_debug = (case debug cfg of Some d \<Rightarrow> d | None \<Rightarrow> False)\<rparr>\<rparr>,
           snd (getPlatform e cur),
           [SDK_init ''countly'' (if fst (getPlatform e cur) = ''web'' then ''web'' else ''native'') True]))"
  using assms
  by (simp add: init_countly_def CountlyProvider_init_def Countly_init_def new_CountlyProvider_def
      new_CountlyAdapter_def CountlyProvider_setDebug_def Let_def split: prod.splits)

lemma init_posthog_result:
  assumes "posthog cfg = Some c"
  shows "init_posthog e cfg s cur =
    (if posthog_sdk_throws e
     then (s\<lparr>posthogProvider := None\<rparr>, snd (getPlatform e cur),
           [SDK_init ''posthog'' (if fst (getPlatform e cur) = ''web'' then ''web'' else ''native'') False])
     else (s\<lparr>posthogProvider := Some
              \<lparr>pp_impl = Some \<lparr>p_web = (fst (getPlatform e cur) = ''web''), p_initialized = True,
                   p_debug = (case posthog_debug c of Some d \<Rightarrow> d | None \<Rightarrow> False),
                   p_config = Some c, posthogClient = True, featureFlagsCallback = None,
                   registeredProperties = Map.empty\<rparr>,
               pp_debug = (case debug cfg of Some d \<Rightarrow> d | None \<Rightarrow> False)\<rparr>\<rparr>,
           snd (getPlatform e cur),
           [SDK_init ''posthog'' (if fst (getPlatform e cur) = ''web'' then ''web'' else ''native'') True]))"
  using assms
  by (simp add: init_posthog_def PostHogProvider_init_def PostHog_init_def new_PostHogProvider_def
      new_PostHogAdapter_def PostHogProvider_setDebug_def Let_def split: prod.splits)

lemma init_unfold:
  "init e cfg s cur =
    (if initialized s then (None, s, cur, [])
     else if \<not> valid (validateConfig cfg)
       then (Some (ConfigurationError (errors (validateConfig cfg))), s, cur, [])
     else case init_platform cfg cur of
        Inl err \<Rightarrow> (Some err, s\<lparr>config := Some cfg\<rparr>, cur, [])
      | Inr cur1 \<Rightarrow>
          (let s2 = s\<lparr>config := Some cfg,
                      priv_trackScreenViews := (trackScreenViews cfg \<noteq> Some False)\<rparr>;
               r1 = init_countly e cfg s2 cur1;
               r2 = init_posthog e cfg (fst r1) (fst (snd r1))
           in (None, (fst r2)\<lparr>initialized := True\<rparr>, fst (snd r2), snd (snd r1) @ snd (snd r2))))"
  by (simp add: init_def Let_def split: prod.splits sum.splits)

text \<open>What \<open>init\<close> does to the fields outside the providers.\<close>

lemma init_countly_frame:
  "priv_trackScreenViews (fst (init_countly e cfg s cur)) = priv_trackScreenViews s
   \<and> screenViewOverrides (fst (init_countly e cfg s cur)) = screenViewOverrides s
   \<and> initialized (fst (init_countly e cfg s cur)) = initialized s
   \<and> routeNameRef (fst (init_countly e cfg s cur)) = routeNameRef s"
  by (simp add: init_countly_def Let_def split: option.splits prod.splits)

lemma init_posthog_frame:
  "priv_trackScreenViews (fst (init_posthog e cfg s cur)) = priv_trackScreenViews s
   \<and> screenViewOverrides (fst (init_posthog e cfg s cur)) = screenViewOverrides s
   \<and> initialized (fst (init_posthog e cfg s cur)) = initialized s
   \<and> routeNameRef (fst (init_posthog e cfg s cur)) = routeNameRef s"
  by (simp add: init_posthog_def Let_def split: option.splits prod.splits)

lemma init_switch:
  "priv_trackScreenViews (fst (snd (init e cfg s cur))) =
     (if \<not> initialized s \<and> valid (validateConfig cfg)
         \<and> (case init_platform cfg cur of Inl err \<Rightarrow> False | Inr cur1 \<Rightarrow> True)
      then trackScreenViews cfg \<noteq> Some False
      else priv_trackScreenViews s)"
  by (simp add: init_unfold Let_def init_countly_frame init_posthog_frame split: sum.splits)

lemma init_overrides:
  "screenViewOverrides (fst (snd (init e cfg s cur))) = screenViewOverrides s"
  by (simp add: init_unfold Let_def init_countly_frame init_posthog_frame split: sum.splits)

lemma sample_init:
  "init (sample_env\<lparr>countly_sdk_throws := ct, posthog_sdk_throws := pt\<rparr>) sample_config
        new_UnifiedAnalytics None =
   (None,
    \<lparr>initialized = True, config = Some sample_config,
     countlyProvider =
       (if ct then None
        else Some \<lparr>cp_impl = Some \<lparr>c_web = True, c_initialized = True, c_debug = False,
                      c_config = countly sample_config, userContext = Map.empty\<rparr>,
                   cp_debug = False\<rparr>),
     posthogProvider =
       (if pt then None
        else Some \<lparr>pp_impl = Some \<lparr>p_web = True, p_initialized = True, p_debug = False,
                      p_config = posthog sample_config, posthogClient = True,
                      featureFlagsCallback = None, registeredProperties = Map.empty\<rparr>,
                   pp_debug = False\<rparr>),
     routeNameRef = None, screenViewOverrides = Map.empty, priv_trackScreenViews = True\<rparr>,
    Some ''web'',
    [SDK_init ''countly'' ''web'' (\<not> ct), SDK_init ''posthog'' ''web'' (\<not> pt)])"
proof -
  have v: "valid (validateConfig sample_config)"
    by (simp add: validateConfig_def sample_config_def)
  have pl: "init_platform sample_config None = Inr None"
    by (simp add: init_platform_def sample_config_def)
  have c: "countly sample_config = Some \<lparr>serverUrl = Some ''https://countly.example'',
             appKey = Some ''key'', countly_debug = None\<rparr>"
    by (simp add: sample_config_def)
  have p: "posthog sample_config = Some \<lparr>apiKey = Some ''phc_key'', posthog_debug = None\<rparr>"
    by (simp add: sample_config_def)
  have d: "debug sample_config = None" "trackScreenViews sample_config = None"
    by (simp_all add: sample_config_def)
  let ?e = "sample_env\<lparr>countly_sdk_throws := ct, posthog_sdk_throws := pt\<rparr>"
  have a: "autoDetectPlatform ?e = ''web''"
    by (simp add: autoDetectPlatform_def sample_env_def)
  have g: "getPlatform ?e None = (''web'', Some ''web'')"
          "getPlatform ?e (Some ''web'') = (''web'', Some ''web'')"
    by (simp_all add: getPlatform_def a)
  have t: "countly_sdk_throws ?e = ct" "posthog_sdk_throws ?e = pt"
    by simp_all
  have r1: "init_countly ?e sample_config
              (new_UnifiedAnalytics\<lparr>config := Some sample_config, priv_trackScreenViews := True\<rparr>) None
            = (new_UnifiedAnalytics\<lparr>config := Some sample_config, priv_trackScreenViews := True,
                 countlyProvider :=
                   (if ct then None
                    else Some \<lparr>cp_impl = Some \<lparr>c_web = True, c_initialized = True, c_debug = False,
                                  c_config = countly sample_config, userContext = Map.empty\<rparr>,
                               cp_debug = False\<rparr>)\<rparr>,
               Some ''web'', [SDK_init ''countly'' ''web'' (\<not> ct)])"
    unfolding init_countly_result[OF c] g t by (simp add: d c)
  have r2: "\<And>s. init_posthog ?e sample_config s (Some ''web'')
            = (s\<lparr>posthogProvider :=
                   (if pt then None
                    else Some \<lparr>pp_impl = Some \<lparr>p_web = True, p_initialized = True, p_debug = False,
                                  p_config = posthog sample_config, posthogClient = True,
                                  featureFlagsCallback = None, registeredProperties = Map.empty\<rparr>,
                               pp_debug = False\<rparr>)\<rparr>,
               Some ''web'', [SDK_init ''posthog'' ''web'' (\<not> pt)])"
    unfolding init_posthog_result[OF p] g t by (simp add: d p)
  have i: "\<not> initialized new_UnifiedAnalytics" by (simp add: new_UnifiedAnalytics_def)
  show ?thesis
    unfolding init_unfold
    by (simp add: i v pl d r1 r2 Let_def) (simp add: new_UnifiedAnalytics_def)
qed

text \<open>The same \<open>init\<close> from any state that is not yet initialised.\<close>

lemma sample_init_any:
  assumes "\<not> initialized s"
  shows "init sample_env sample_config s None =
   (None,
    s\<lparr>initialized := True, config := Some sample_config,
      countlyProvider :=
        Some \<lparr>cp_impl = Some \<lparr>c_web = True, c_initialized = True, c_debug = False,
                 c_config = countly sample_config, userContext = Map.empty\<rparr>,
              cp_debug = False\<rparr>,
      posthogProvider :=
        Some \<lparr>pp_impl = Some \<lparr>p_web = True, p_initialized = True, p_debug = False,
                 p_config = posthog sample_config, posthogClient = True,
                 featureFlagsCallback = None, registeredProperties = Map.empty\<rparr>,
              pp_debug = False\<rparr>,
      priv_trackScreenViews := True\<rparr>,
    Some ''web'',
    [SDK_init ''countly'' ''web'' True, SDK_init ''posthog'' ''web'' True])"
proof -
  have v: "valid (validateConfig sample_config)"
    by (simp add: validateConfig_def sample_config_def)
  have pl: "init_platform sample_config None = Inr None"
    by (simp add: init_platform_def sample_config_def)
  have c: "countly sample_config = Some \<lparr>serverUrl = Some ''https://countly.example'',
             appKey = Some ''key'', countly_debug = None\<rparr>"
    by (simp add: sample_config_def)
  have p: "posthog sample_config = Some \<lparr>apiKey = Some ''phc_key'', posthog_debug = None\<rparr>"
    by (simp add: sample_config_def)
  have d: "debug sample_config = None" "trackScreenViews sample_config = None"
    by (simp_all add: sample_config_def)
  have a: "autoDetectPlatform sample_env = ''web''"
    by (simp add: autoDetectPlatform_def sample_env_def)
  have g: "getPlatform sample_env None = (''web'', Some ''web'')"
          "getPlatform sample_env (Some ''web'') = (''web'', Some ''web'')"
    by (simp_all add: getPlatform_def a)
  have t: "\<not> countly_sdk_throws sample_env" "\<not> posthog_sdk_throws sample_env"
    by (simp_all add: sample_env_def)
  have r1: "\<And>s. init_countly sample_env sample_config s None
            = (s\<lparr>countlyProvider :=
                    Some \<lparr>cp_impl = Some \<lparr>c_web = True, c_initialized = True, c_debug = False,
                             c_config = countly sample_config, userContext = Map.empty\<rparr>,
                          cp_debug = False\<rparr>\<rparr>,
               Some ''web'', [SDK_init ''countly'' ''web'' True])"
    unfolding init_countly_result[OF c] g by (simp add: d c t)
  have r2: "\<And>s. init_posthog sample_env sample_config s (Some ''web'')
            = (s\<lparr>posthogProvider :=
                    Some \<lparr>pp_impl = Some \<lparr>p_web = True, p_initialized = True, p_debug = False,
                             p_config = posthog sample_config, posthogClient = True,
                             featureFlagsCallback = None, registeredProperties = Map.empty\<rparr>,
                          pp_debug = False\<rparr>\<rparr>,
               Some ''web'', [SDK_init ''posthog'' ''web'' True])"
    unfolding init_posthog_result[OF p] g by (simp add: d p t)
  show ?thesis
    unfolding init_unfold
    by (simp add: assms v pl d r1 r2 Let_def)
qed

lemma validate_invalid:
  assumes "(countly cfg = None \<and> posthog cfg = None)
         \<or> (\<exists>c. countly cfg = Some c \<and> (\<not> truthy (serverUrl c) \<or> \<not> truthy (appKey c)))
         \<or> (\<exists>p. posthog cfg = Some p \<and> \<not> truthy (apiKey p))"
  shows "\<not> valid (validateConfig cfg)"
  using assms by (auto simp: validateConfig_def Let_def split: option.splits)

subsection \<open>Failure isolation\<close>



subsection \<open>Rejection of an invalid configuration\<close>

text \<open>
  C2. On an orchestrator that is not yet initialised (a first call), if the
  configuration names no provider, or its Countly block lacks \<open>serverUrl\<close> or \<open>appKey\<close>,
  or its PostHog block lacks \<open>apiKey\<close> (a field lacks when it is absent or empty), then
  \<open>init\<close> rejects with the configuration error carrying the validation messages, of
  which there is at least one; the orchestrator and the platform variable are exactly
  as before (no proxy was constructed, nothing was stored) and no SDK call was made.
\<close>

theorem init_rejects_invalid_config:
  assumes "\<not> initialized s"
      and "(countly cfg = None \<and> posthog cfg = None)
         \<or> (\<exists>c. countly cfg = Some c \<and> (\<not> truthy (serverUrl c) \<or> \<not> truthy (appKey c)))
         \<or> (\<exists>p. posthog cfg = Some p \<and> \<not> truthy (apiKey p))"
  shows "init e cfg s cur = (Some (ConfigurationError (errors (validateConfig cfg))), s, cur, [])
       \<and> errors (validateConfig cfg) \<noteq> []"
proof -
  have nv: "\<not> valid (validateConfig cfg)" using assms(2) by (rule validate_invalid)
  have "init e cfg s cur = (Some (ConfigurationError (errors (validateConfig cfg))), s, cur, [])"
    using assms(1) nv by (simp add: init_def Let_def)
  moreover have "errors (validateConfig cfg) \<noteq> []"
    using nv by (simp add: validateConfig_def Let_def)
  ultimately show ?thesis by simp
qed

theorem init_rejects_invalid_config_witness:
  "\<not> initialized new_UnifiedAnalytics
   \<and> countly (sample_config\<lparr>countly := None, posthog := None\<rparr>) = None
   \<and> posthog (sample_config\<lparr>countly := None, posthog := None\<rparr>) = None
   \<and> init sample_env (sample_config\<lparr>countly := None, posthog := None\<rparr>) new_UnifiedAnalytics None
       = (Some (ConfigurationError
                  [''At least one provider (countly or posthog) must be configured'']),
          new_UnifiedAnalytics, None, [])"
proof -
  let ?cfg = "sample_config\<lparr>countly := None, posthog := None\<rparr>"
  have h1: "\<not> initialized new_UnifiedAnalytics" by (simp add: new_UnifiedAnalytics_def)
  have h2: "countly ?cfg = None \<and> posthog ?cfg = None" by simp
  have e: "errors (validateConfig ?cfg)
           = [''At least one provider (countly or posthog) must be configured'']"
    by (simp add: validateConfig_def)
  from init_rejects_invalid_config[of new_UnifiedAnalytics ?cfg sample_env None] h1 h2 e
  show ?thesis by simp
qed

section \<open>The sample states\<close>

lemma sample_state_eq:
  "sample_state =
    \<lparr>initialized = True, config = Some sample_config,
     countlyProvider =
       Some \<lparr>cp_impl = Some \<lparr>c_web = True, c_initialized = True, c_debug = False,
                c_config = countly sample_config, userContext = Map.empty\<rparr>,
             cp_debug = False\<rparr>,
     posthogProvider =
       Some \<lparr>pp_impl = Some \<lparr>p_web = True, p_initialized = True, p_debug = False,
                p_config = posthog sample_config, posthogClient = True,
                featureFlagsCallback = None, registeredProperties = Map.empty\<rparr>,
             pp_debug = False\<rparr>,
     routeNameRef = None, screenViewOverrides = Map.empty, priv_trackScreenViews = True\<rparr>"
proof -
  have "sample_env = sample_env\<lparr>countly_sdk_throws := False, posthog_sdk_throws := False\<rparr>"
    by (simp add: sample_env_def)
  then have "init sample_env sample_config new_UnifiedAnalytics None
           = init (sample_env\<lparr>countly_sdk_throws := False, posthog_sdk_throws := False\<rparr>)
               sample_config new_UnifiedAnalytics None"
    by simp
  then show ?thesis
    unfolding sample_state_def sample_init by simp
qed

lemma countly_only_state_eq:
  "countly_only_state =
    \<lparr>initialized = True, config = Some countly_only_config,
     countlyProvider =
       Some \<lparr>cp_impl = Some \<lparr>c_web = True, c_initialized = True, c_debug = False,
                c_config = countly sample_config, userContext = Map.empty\<rparr>,
             cp_debug = False\<rparr>,
     posthogProvider = None,
     routeNameRef = None, screenViewOverrides = Map.empty, priv_trackScreenViews = True\<rparr>"
proof -
  have v: "valid (validateConfig countly_only_config)"
    by (simp add: validateConfig_def countly_only_config_def sample_config_def)
  have pl: "init_platform countly_only_config None = Inr None"
    by (simp add: init_platform_def countly_only_config_def sample_config_def)
  have c: "countly countly_only_config = Some \<lparr>serverUrl = Some ''https://countly.example'',
             appKey = Some ''key'', countly_debug = None\<rparr>"
    by (simp add: countly_only_config_def sample_config_def)
  have p: "posthog countly_only_config = None"
    by (simp add: countly_only_config_def)
  have d: "debug countly_only_config = None" "trackScreenViews countly_only_config = None"
    by (simp_all add: countly_only_config_def sample_config_def)
  have g: "getPlatform sample_env None = (''web'', Some ''web'')"
    by (simp add: getPlatform_def autoDetectPlatform_def sample_env_def)
  have t: "\<not> countly_sdk_throws sample_env" by (simp add: sample_env_def)
  have i: "\<not> initialized new_UnifiedAnalytics" by (simp add: new_UnifiedAnalytics_def)
  have cs: "countly sample_config = Some \<lparr>serverUrl = Some ''https://countly.example'',
             appKey = Some ''key'', countly_debug = None\<rparr>"
    by (simp add: sample_config_def)
  show ?thesis
    unfolding countly_only_state_def init_unfold
    by (simp add: i v pl d g t init_countly_result[OF c] init_posthog_def p Let_def cs)
       (simp add: new_UnifiedAnalytics_def)
qed

section \<open>Global properties\<close>

text \<open>
  Writing fans out to every active provider and reading asks Countly first, so a key
  that was just set is read back whenever some provider is active.
\<close>

lemma setGlobalProperties_then_get:
  assumes "countly_active s \<or> posthog_active s" and "properties k = Some v"
  shows "getGlobalProperties (setGlobalProperties properties s) k = Some v"
  using assms
  by (auto simp: getGlobalProperties_def setGlobalProperties_def countly_active_def
      posthog_active_def CountlyProvider_isInitialized_def PostHogProvider_isInitialized_def
      CountlyProvider_setUserContext_def PostHogProvider_register_def
      Countly_setUserContext_def PostHog_register_def CountlyProvider_getUserContext_def
      PostHogProvider_getRegisteredProperties_def Countly_getUserContext_def
      PostHog_getRegisteredProperties_def Let_def map_add_def
      split: option.splits)

text \<open>
  Removing is another matter. With Countly active, \<open>removeGlobalProperty\<close> hands the
  copy without the key to \<open>setUserContext\<close>, which merges it into the stored context:
  the stored context, which still has the key, is left as it was. With PostHog alone
  the key is deleted from \<open>registeredProperties\<close>.
\<close>

lemma removeGlobalProperty_countly_keeps:
  assumes "countly_active s"
  shows "getGlobalProperties (removeGlobalProperty k s) = getGlobalProperties s"
proof -
  obtain p a where p: "countlyProvider s = Some p" and a: "cp_impl p = Some a"
    and i: "c_initialized a"
    using assms
    by (auto simp: countly_active_def CountlyProvider_isInitialized_def split: option.splits)
  have m: "userContext a ++ (userContext a)(k := None) = userContext a"
    by (rule ext) (simp add: map_add_def split: option.splits)
  show ?thesis
    using p a i
    by (auto simp: getGlobalProperties_def removeGlobalProperty_def
        CountlyProvider_isInitialized_def PostHogProvider_isInitialized_def
        CountlyProvider_setUserContext_def Countly_setUserContext_def
        CountlyProvider_getUserContext_def Countly_getUserContext_def Let_def m
        split: option.splits)
qed

lemma removeGlobalProperty_posthog_only:
  assumes "\<not> countly_active s" and "posthog_active s"
  shows "getGlobalProperties (removeGlobalProperty k s) k = None"
  using assms
  by (auto simp: getGlobalProperties_def removeGlobalProperty_def countly_active_def
      posthog_active_def CountlyProvider_isInitialized_def PostHogProvider_isInitialized_def
      PostHogProvider_unregister_def PostHog_unregister_def
      PostHogProvider_getRegisteredProperties_def PostHog_getRegisteredProperties_def Let_def
      split: option.splits)

lemma countly_only_active: "countly_active countly_only_state"
  by (simp add: countly_only_state_eq countly_active_def CountlyProvider_isInitialized_def)

text \<open>
  C3. The claim: after \<open>setGlobalProperties({k: v})\<close> the global properties contain
  \<open>k\<close> with value \<open>v\<close>, and after \<open>removeGlobalProperty(k)\<close> they no longer contain \<open>k\<close>,
  whenever a provider is active. The first half holds (\<open>setGlobalProperties_then_get\<close>).
  The second half does not hold when Countly is active: on the state after a
  Countly-only \<open>init\<close>, setting \<open>plan\<close> and then removing \<open>plan\<close> leaves \<open>plan\<close> in what
  \<open>getGlobalProperties\<close> returns.
\<close>

theorem removeGlobalProperty_keeps_key_with_countly:
  "getGlobalProperties
     (removeGlobalProperty ''plan''
        (setGlobalProperties [''plan'' \<mapsto> VStr ''pro''] countly_only_state)) ''plan''
   = Some (VStr ''pro'')"
proof -
  let ?s = "setGlobalProperties [''plan'' \<mapsto> VStr ''pro''] countly_only_state"
  have "countly_active ?s"
    by (simp add: countly_only_state_eq setGlobalProperties_def countly_active_def
        CountlyProvider_isInitialized_def CountlyProvider_setUserContext_def
        Countly_setUserContext_def)
  then have "getGlobalProperties (removeGlobalProperty ''plan'' ?s) = getGlobalProperties ?s"
    by (rule removeGlobalProperty_countly_keeps)
  moreover have "getGlobalProperties ?s ''plan'' = Some (VStr ''pro'')"
    using countly_only_active by (simp add: setGlobalProperties_then_get)
  ultimately show ?thesis by simp
qed

section \<open>Feature flags without a provider that supports them\<close>

text \<open>
  When PostHog is not active, \<open>isFeatureEnabled\<close> is \<open>false\<close>, \<open>getAllFeatureFlags\<close> is
  the empty object and \<open>onFeatureFlagsChange\<close> returns the no-op function, in every
  state. \<open>getFeatureFlag\<close> returns \<open>null\<close> when a configuration has been stored, and
  throws when none has.
\<close>

lemma feature_flag_defaults:
  assumes "\<not> posthog_active s"
  shows "isFeatureEnabled e key s = False"
    and "getAllFeatureFlags e s = Map.empty"
    and "onFeatureFlagsChange cb s = (NoopFunction, s)"
    and "getFeatureFlag e key s = (case config s of None \<Rightarrow> Inl TypeError | Some cfg \<Rightarrow> Inr Null)"
  using assms
  by (auto simp: isFeatureEnabled_def getAllFeatureFlags_def onFeatureFlagsChange_def
      getFeatureFlag_def posthog_active_def Let_def split: option.splits)

text \<open>
  C6. The claim: with no active provider that supports feature flags, the state before
  \<open>init\<close> was ever called included, \<open>getFeatureFlag\<close> returns \<open>null\<close> without raising an
  error. On the freshly constructed orchestrator \<open>getFeatureFlag\<close> throws a
  \<open>TypeError\<close>, for every key: \<open>config\<close> is still \<open>null\<close> when \<^verbatim>\<open>this.config.debug\<close> is
  read.
\<close>

theorem getFeatureFlag_throws_before_init:
  "getFeatureFlag e key new_UnifiedAnalytics = Inl TypeError"
  by (simp add: getFeatureFlag_def new_UnifiedAnalytics_def)

section \<open>String coercion of segments\<close>



section \<open>What the Countly adapter sends\<close>





section \<open>The screen-view switch\<close>

lemma trackView_disabled:
  "\<not> priv_trackScreenViews s \<Longrightarrow> trackView e v properties s = (s, [])"
  by (simp add: trackView_def)

lemma run_trackView_disabled:
  "\<not> priv_trackScreenViews s \<Longrightarrow> run_trackView e vs s = (s, [])"
  by (induction vs) (simp_all add: trackView_disabled)

lemma trackView_state: "fst (trackView e v properties s) = s"
  by (simp add: trackView_def)

lemma trackView_providers:
  "priv_trackScreenViews s \<Longrightarrow>
   map provider_of (snd (trackView e v properties s)) = getEnabledProviders s"
  by (auto simp: trackView_def getEnabledProviders_def countly_active_def posthog_active_def
      CountlyProvider_isInitialized_def PostHogProvider_isInitialized_def
      CountlyProvider_trackView_def PostHogProvider_trackView_def
      Countly_trackView_def PostHog_trackView_def Let_def split: option.splits)

lemma getEnabledProviders_setTrackScreenViews [simp]:
  "getEnabledProviders (setTrackScreenViews b s) = getEnabledProviders s"
  by (simp add: getEnabledProviders_def setTrackScreenViews_def countly_active_def
      posthog_active_def)

section \<open>Screen-view overrides and the navigation handlers\<close>

subsection \<open>One transition\<close>

lemma trackView_enabled_names:
  assumes "priv_trackScreenViews s" and "c \<in> set (snd (trackView e v None s))"
  shows "view_name c = Some v"
  using assms
  by (auto simp: trackView_def CountlyProvider_trackView_def PostHogProvider_trackView_def
      Countly_trackView_def PostHog_trackView_def Let_def split: option.splits if_splits)

lemma getEnabledProviders_cong:
  "countlyProvider s' = countlyProvider s \<Longrightarrow> posthogProvider s' = posthogProvider s \<Longrightarrow>
   getEnabledProviders s' = getEnabledProviders s"
  by (simp add: getEnabledProviders_def countly_active_def posthog_active_def)

lemma trackView_eq: "trackView e v properties s = (s, snd (trackView e v properties s))"
  by (simp add: trackView_def)

lemma onStateChange_override:
  assumes "cur \<noteq> []" and "custom \<noteq> []" and "routeNameRef s \<noteq> Some cur"
      and "screenViewOverrides s cur = Some custom"
  shows "onStateChange e (Some cur) s =
           (s\<lparr>screenViewOverrides := (screenViewOverrides s)(cur := None),
              routeNameRef := Some cur\<rparr>,
            snd (trackView e custom None s))"
proof -
  obtain cs where t: "trackView e custom None s = (s, cs)"
    using trackView_eq by blast
  show ?thesis using assms by (simp add: onStateChange_def Let_def t)
qed

lemma onStateChange_plain:
  assumes "cur \<noteq> []" and "routeNameRef s \<noteq> Some cur" and "screenViewOverrides s cur = None"
  shows "onStateChange e (Some cur) s =
           (s\<lparr>routeNameRef := Some cur\<rparr>, snd (trackView e cur None s))"
proof -
  obtain cs where t: "trackView e cur None s = (s, cs)"
    using trackView_eq by blast
  show ?thesis using assms by (simp add: onStateChange_def Let_def t)
qed

text \<open>What no transition changes, and what a transition can only delete.\<close>

lemma onStateChange_frame:
  "priv_trackScreenViews (fst (onStateChange e r s)) = priv_trackScreenViews s
   \<and> countlyProvider (fst (onStateChange e r s)) = countlyProvider s
   \<and> posthogProvider (fst (onStateChange e r s)) = posthogProvider s
   \<and> (screenViewOverrides s k = None \<longrightarrow> screenViewOverrides (fst (onStateChange e r s)) k = None)
   \<and> routeNameRef (fst (onStateChange e r s)) = r"
proof -
  have t: "\<And>v. trackView e v None s = (s, snd (trackView e v None s))"
    by (rule trackView_eq)
  show ?thesis
  proof (cases r)
    case None
    then show ?thesis by (simp add: onStateChange_def)
  next
    case (Some cur)
    show ?thesis
    proof (cases "routeNameRef s \<noteq> Some cur \<and> cur \<noteq> []")
      case False
      then show ?thesis using Some by (auto simp: onStateChange_def)
    next
      case True
      show ?thesis
      proof (cases "screenViewOverrides s cur")
        case None
        then show ?thesis using Some True onStateChange_plain[of cur s e] by simp
      next
        case (Some custom)
        show ?thesis
        proof (cases "custom = []")
          case False
          then show ?thesis
            using \<open>r = Some cur\<close> True Some onStateChange_override[of cur custom s e] by simp
        next
          case True
          obtain cs where tt: "trackView e cur None s = (s, cs)" using t by blast
          from True Some \<open>r = Some cur\<close> \<open>routeNameRef s \<noteq> Some cur \<and> cur \<noteq> []\<close>
          show ?thesis by (simp add: onStateChange_def Let_def tt)
        qed
      qed
    qed
  qed
qed

lemma run_onStateChange_frame:
  "priv_trackScreenViews (fst (run_onStateChange e rs s)) = priv_trackScreenViews s
   \<and> countlyProvider (fst (run_onStateChange e rs s)) = countlyProvider s
   \<and> posthogProvider (fst (run_onStateChange e rs s)) = posthogProvider s
   \<and> (screenViewOverrides s k = None \<longrightarrow> screenViewOverrides (fst (run_onStateChange e rs s)) k = None)"
proof (induction rs arbitrary: s)
  case Nil
  then show ?case by simp
next
  case (Cons r rs)
  obtain s1 c1 where o: "onStateChange e r s = (s1, c1)" by (cases "onStateChange e r s")
  have f: "priv_trackScreenViews s1 = priv_trackScreenViews s
           \<and> countlyProvider s1 = countlyProvider s
           \<and> posthogProvider s1 = posthogProvider s
           \<and> (screenViewOverrides s k = None \<longrightarrow> screenViewOverrides s1 k = None)"
    using onStateChange_frame[of e r s k] o by simp
  have r: "fst (run_onStateChange e (r # rs) s) = fst (run_onStateChange e rs s1)"
    by (simp add: o split: prod.splits)
  show ?case unfolding r using Cons.IH[of s1] f by simp
qed


lemma onRouteChange_override:
  assumes "u \<noteq> []" and "custom \<noteq> []" and "previousPath \<noteq> Some u"
      and "screenViewOverrides s u = Some custom"
  shows "onRouteChange e (Some u) (s, previousPath) =
           ((s\<lparr>screenViewOverrides := (screenViewOverrides s)(u := None)\<rparr>, Some u),
            snd (trackView e custom None s))"
proof -
  obtain cs where t: "trackView e custom None s = (s, cs)"
    using trackView_eq by blast
  show ?thesis using assms by (auto simp: onRouteChange_def Let_def t)
qed

lemma onRouteChange_plain:
  assumes "u \<noteq> []" and "previousPath \<noteq> Some u" and "screenViewOverrides s u = None"
  shows "onRouteChange e (Some u) (s, previousPath) =
           ((s, Some u), snd (trackView e u None s))"
proof -
  obtain cs where t: "trackView e u None s = (s, cs)"
    using trackView_eq by blast
  show ?thesis using assms by (auto simp: onRouteChange_def Let_def t)
qed

lemma onRouteChange_frame:
  "priv_trackScreenViews (fst (fst (onRouteChange e r st))) = priv_trackScreenViews (fst st)
   \<and> countlyProvider (fst (fst (onRouteChange e r st))) = countlyProvider (fst st)
   \<and> posthogProvider (fst (fst (onRouteChange e r st))) = posthogProvider (fst st)
   \<and> (screenViewOverrides (fst st) k = None
        \<longrightarrow> screenViewOverrides (fst (fst (onRouteChange e r st))) k = None)"
proof -
  obtain s prev where st: "st = (s, prev)" by (cases st)
  show ?thesis
  proof (cases r)
    case None
    then show ?thesis by (simp add: onRouteChange_def st)
  next
    case (Some u)
    show ?thesis
    proof (cases "u \<noteq> [] \<and> prev \<noteq> Some u")
      case False
      then show ?thesis using Some by (auto simp: onRouteChange_def st)
    next
      case True
      show ?thesis
      proof (cases "screenViewOverrides s u")
        case None
        then show ?thesis using Some True onRouteChange_plain[of u prev s e] by (simp add: st)
      next
        case (Some custom)
        show ?thesis
        proof (cases "custom = []")
          case False
          then show ?thesis
            using \<open>r = Some u\<close> True Some onRouteChange_override[of u custom prev s e]
            by (simp add: st)
        next
          case True
          obtain cs where tt: "trackView e u None s = (s, cs)" using trackView_eq by blast
          from True Some \<open>r = Some u\<close> \<open>u \<noteq> [] \<and> prev \<noteq> Some u\<close>
          show ?thesis by (auto simp: onRouteChange_def Let_def tt st)
        qed
      qed
    qed
  qed
qed

lemma run_onRouteChange_frame:
  "priv_trackScreenViews (fst (fst (run_onRouteChange e rs st))) = priv_trackScreenViews (fst st)
   \<and> countlyProvider (fst (fst (run_onRouteChange e rs st))) = countlyProvider (fst st)
   \<and> posthogProvider (fst (fst (run_onRouteChange e rs st))) = posthogProvider (fst st)
   \<and> (screenViewOverrides (fst st) k = None
        \<longrightarrow> screenViewOverrides (fst (fst (run_onRouteChange e rs st))) k = None)"
proof (induction rs arbitrary: st)
  case Nil
  then show ?case by simp
next
  case (Cons r rs)
  obtain st1 c1 where o: "onRouteChange e r st = (st1, c1)" by (cases "onRouteChange e r st")
  have f: "priv_trackScreenViews (fst st1) = priv_trackScreenViews (fst st)
           \<and> countlyProvider (fst st1) = countlyProvider (fst st)
           \<and> posthogProvider (fst st1) = posthogProvider (fst st)
           \<and> (screenViewOverrides (fst st) k = None \<longrightarrow> screenViewOverrides (fst st1) k = None)"
    using onRouteChange_frame[of e r st k] o by simp
  have r: "fst (run_onRouteChange e (r # rs) st) = fst (run_onRouteChange e rs st1)"
    by (simp add: o split: prod.splits)
  show ?case unfolding r using Cons.IH[of st1] f by simp
qed

subsection \<open>Overrides across other operations\<close>

lemma trackView_fstD: "trackView e v p s = (a, b) \<Longrightarrow> a = s"
  by (simp add: trackView_def split: if_splits)

text \<open>The only entry a transition can change is the one of the new route.\<close>

lemma onStateChange_overrides:
  "screenViewOverrides (fst (onStateChange e r s)) k =
     (if r = Some k \<and> k \<noteq> [] \<and> routeNameRef s \<noteq> Some k
         \<and> screenViewOverrides s k \<noteq> None \<and> screenViewOverrides s k \<noteq> Some []
      then None else screenViewOverrides s k)"
  by (cases r)
     (auto simp: onStateChange_def Let_def split: option.splits prod.splits
           dest!: trackView_fstD)

lemma onRouteChange_overrides:
  "screenViewOverrides (fst (fst (onRouteChange e r (s, pp)))) k =
     (if r = Some k \<and> k \<noteq> [] \<and> pp \<noteq> Some k
         \<and> screenViewOverrides s k \<noteq> None \<and> screenViewOverrides s k \<noteq> Some []
      then None else screenViewOverrides s k)"
  by (cases r)
     (auto simp: onRouteChange_def Let_def split: option.splits prod.splits
           dest!: trackView_fstD)

lemma overrides_after_op:
  "screenViewOverrides (w_orch (apply_op e x w)) k =
     (case x of
        SetScreenViewOverride screenName customName \<Rightarrow>
          if screenName = k then Some customName else screenViewOverrides (w_orch w) k
      | ClearScreenViewOverride screenName \<Rightarrow>
          if screenName = k then None else screenViewOverrides (w_orch w) k
      | OnStateChange r \<Rightarrow>
          if r = Some k \<and> k \<noteq> [] \<and> routeNameRef (w_orch w) \<noteq> Some k
             \<and> screenViewOverrides (w_orch w) k \<noteq> None
             \<and> screenViewOverrides (w_orch w) k \<noteq> Some []
          then None else screenViewOverrides (w_orch w) k
      | OnRouteChange n r \<Rightarrow>
          if r = Some k \<and> k \<noteq> [] \<and> w_previousPath w n \<noteq> Some k
             \<and> screenViewOverrides (w_orch w) k \<noteq> None
             \<and> screenViewOverrides (w_orch w) k \<noteq> Some []
          then None else screenViewOverrides (w_orch w) k
      | _ \<Rightarrow> screenViewOverrides (w_orch w) k)"
proof (cases x)
  case (Init cfg)
  then show ?thesis
    using init_overrides[of e cfg "w_orch w" "w_currentPlatform w"]
    by (auto split: prod.splits)
next
  case (OnStateChange r)
  then show ?thesis using onStateChange_overrides[of e r "w_orch w" k] by simp
next
  case (OnRouteChange n r)
  obtain s1 p1 c1 where o: "onRouteChange e r (w_orch w, w_previousPath w n) = ((s1, p1), c1)"
    by (metis surj_pair)
  show ?thesis
    using onRouteChange_overrides[of e r "w_orch w" "w_previousPath w n" k] OnRouteChange
    by (simp add: o)
next
  case (SetGlobalProperties properties)
  then show ?thesis by (simp add: setGlobalProperties_def Let_def split: option.splits)
next
  case (RemoveGlobalProperty key)
  then show ?thesis by (simp add: removeGlobalProperty_def Let_def split: option.splits)
next
  case ClearGlobalProperties
  then show ?thesis by (simp add: clearGlobalProperties_def Let_def split: option.splits)
next
  case Reset
  then show ?thesis by (simp add: reset_def split: option.splits)
next
  case (OnFeatureFlagsChange cb)
  then show ?thesis by (simp add: onFeatureFlagsChange_def split: option.splits)
qed (simp_all add: trackEvent_def trackEventToProviders_def trackView_state
      setScreenViewOverride_def clearScreenViewOverride_def setTrackScreenViews_def
      onReady_def split: sum.splits)

lemma override_kept_by_op:
  "\<not> touches_override k x w \<Longrightarrow>
   screenViewOverrides (w_orch (apply_op e x w)) k = screenViewOverrides (w_orch w) k"
  unfolding overrides_after_op by (cases x) auto

lemma run_override_kept:
  "undisturbed (touches_override k) e xs w \<Longrightarrow>
   screenViewOverrides (w_orch (run e xs w)) k = screenViewOverrides (w_orch w) k"
proof (induction xs arbitrary: w)
  case Nil
  then show ?case by simp
next
  case (Cons x xs)
  then show ?case using override_kept_by_op[of k x w e] by simp
qed

lemma empty_override_kept_by_op:
  "\<not> reregisters k x w \<Longrightarrow> screenViewOverrides (w_orch w) k = Some [] \<Longrightarrow>
   screenViewOverrides (w_orch (apply_op e x w)) k = Some []"
  unfolding overrides_after_op by (cases x) auto

lemma run_empty_override_kept:
  "undisturbed (reregisters k) e xs w \<Longrightarrow> screenViewOverrides (w_orch w) k = Some [] \<Longrightarrow>
   screenViewOverrides (w_orch (run e xs w)) k = Some []"
proof (induction xs arbitrary: w)
  case Nil
  then show ?case by simp
next
  case (Cons x xs)
  then show ?case using empty_override_kept_by_op[of k x w e] by simp
qed

lemma onStateChange_empty_name:
  assumes "screenViewOverrides t k = Some []"
  shows "onStateChange e (Some k) t =
           (t\<lparr>routeNameRef := Some k\<rparr>,
            if k \<noteq> [] \<and> routeNameRef t \<noteq> Some k then snd (trackView e k None t) else [])"
proof -
  obtain cs where tt: "trackView e k None t = (t, cs)"
    using trackView_eq by blast
  show ?thesis using assms by (simp add: onStateChange_def Let_def tt)
qed

lemma onRouteChange_empty_name:
  assumes "screenViewOverrides t k = Some []"
  shows "onRouteChange e (Some k) (t, pp) =
           (if k \<noteq> [] \<and> pp \<noteq> Some k then ((t, Some k), snd (trackView e k None t))
            else ((t, pp), []))"
proof -
  obtain cs where tt: "trackView e k None t = (t, cs)"
    using trackView_eq by blast
  show ?thesis using assms by (auto simp: onRouteChange_def Let_def tt)
qed

subsection \<open>Consumption of an override\<close>

text \<open>
  C4, as the code has it. Let the screen name and the custom name be non-empty, let
  the override be registered and screen-view tracking be enabled, and let the handler
  come from another route. Then the transition to the screen makes exactly one view
  call per active provider, each with the custom name, and deletes the override. After
  any further run of transitions that ends on another route, a transition to the
  screen makes exactly one view call per active provider, each with the raw screen
  name. This holds for the handler of \<open>createNavigationHandlers\<close> (\<open>onStateChange\<close>) and
  for the handler of \<open>createWebNavigationHandlers\<close> (\<open>onRouteChange\<close>).

  An override never expires otherwise: over any run of operations none of which
  registers the screen again, clears it, or is a transition of a handler to the screen
  from another route, the entry of the screen stays what it was.

  An override whose custom name is the empty string is never used and never consumed.
  Its entry stays over any run of operations that does not register or clear the
  screen, transitions to the screen included. In every state that holds such an entry,
  either handler called with the screen does what it does without an override: coming
  from another route to a non-empty screen name it makes the calls of \<open>trackView\<close> with
  the raw screen name, otherwise none, and it leaves the overrides as they are.
\<close>

theorem screen_view_override_consumed_once:
  assumes names: "scr \<noteq> []" "custom \<noteq> []"
      and enabled: "priv_trackScreenViews s"
      and registered: "screenViewOverrides s scr = Some custom"
      and away: "routeNameRef s \<noteq> Some scr" "previousPath \<noteq> Some scr"
      and n1: "onStateChange e (Some scr) s = (s1, calls1)"
      and n2: "run_onStateChange e routes s1 = (s2, calls2)"
      and naway: "routeNameRef s2 \<noteq> Some scr"
      and n3: "onStateChange e (Some scr) s2 = (s3, calls3)"
      and w1: "onRouteChange e (Some scr) (s, previousPath) = (st1, wcalls1)"
      and w2: "run_onRouteChange e urls st1 = (st2, wcalls2)"
      and waway: "snd st2 \<noteq> Some scr"
      and w3: "onRouteChange e (Some scr) st2 = (st3, wcalls3)"
  shows "map provider_of calls1 = getEnabledProviders s
       \<and> (\<forall>c\<in>set calls1. view_name c = Some custom)
       \<and> screenViewOverrides s1 scr = None
       \<and> map provider_of calls3 = getEnabledProviders s
       \<and> (\<forall>c\<in>set calls3. view_name c = Some scr)
       \<and> map provider_of wcalls1 = getEnabledProviders s
       \<and> (\<forall>c\<in>set wcalls1. view_name c = Some custom)
       \<and> screenViewOverrides (fst st1) scr = None
       \<and> map provider_of wcalls3 = getEnabledProviders s
       \<and> (\<forall>c\<in>set wcalls3. view_name c = Some scr)
       \<and> (screenViewOverrides (w_orch w) k = Some name
            \<and> undisturbed (touches_override k) e xs w
          \<longrightarrow> screenViewOverrides (w_orch (run e xs w)) k = Some name)
       \<and> (screenViewOverrides (w_orch w0) k0 = Some []
            \<and> undisturbed (reregisters k0) e ys w0
          \<longrightarrow> screenViewOverrides (w_orch (run e ys w0)) k0 = Some [])
       \<and> (screenViewOverrides t k0 = Some []
          \<longrightarrow> onStateChange e (Some k0) t =
                (t\<lparr>routeNameRef := Some k0\<rparr>,
                 if k0 \<noteq> [] \<and> routeNameRef t \<noteq> Some k0
                 then snd (trackView e k0 None t) else [])
              \<and> onRouteChange e (Some k0) (t, pp) =
                (if k0 \<noteq> [] \<and> pp \<noteq> Some k0
                 then ((t, Some k0), snd (trackView e k0 None t))
                 else ((t, pp), [])))"
proof -
  have first: "s1 = s\<lparr>screenViewOverrides := (screenViewOverrides s)(scr := None),
                      routeNameRef := Some scr\<rparr>"
              "calls1 = snd (trackView e custom None s)"
    using onStateChange_override[OF names away(1) registered, of e] n1 by simp_all
  have a1: "map provider_of calls1 = getEnabledProviders s"
    using first(2) trackView_providers[OF enabled] by simp
  have a2: "\<forall>c\<in>set calls1. view_name c = Some custom"
    using first(2) trackView_enabled_names[OF enabled] by blast
  have a3: "screenViewOverrides s1 scr = None"
    using first(1) by simp
  have fr1: "priv_trackScreenViews s1" "countlyProvider s1 = countlyProvider s"
            "posthogProvider s1 = posthogProvider s"
    using first(1) enabled by simp_all
  have fr2: "priv_trackScreenViews s2" "countlyProvider s2 = countlyProvider s"
            "posthogProvider s2 = posthogProvider s" "screenViewOverrides s2 scr = None"
    using run_onStateChange_frame[of e routes s1 scr] n2 fr1 a3 by simp_all
  have again: "calls3 = snd (trackView e scr None s2)"
    using onStateChange_plain[OF names(1) naway fr2(4), of e] n3 by simp
  have p2: "getEnabledProviders s2 = getEnabledProviders s"
    using fr2(2,3) by (rule getEnabledProviders_cong)
  have a4: "map provider_of calls3 = getEnabledProviders s"
    using again trackView_providers[OF fr2(1)] p2 by simp
  have a5: "\<forall>c\<in>set calls3. view_name c = Some scr"
    using again trackView_enabled_names[OF fr2(1)] by blast
  have wfirst: "st1 = (s\<lparr>screenViewOverrides := (screenViewOverrides s)(scr := None)\<rparr>, Some scr)"
               "wcalls1 = snd (trackView e custom None s)"
    using onRouteChange_override[OF names away(2) registered, of e] w1 by simp_all
  have b1: "map provider_of wcalls1 = getEnabledProviders s"
    using wfirst(2) trackView_providers[OF enabled] by simp
  have b2: "\<forall>c\<in>set wcalls1. view_name c = Some custom"
    using wfirst(2) trackView_enabled_names[OF enabled] by blast
  have b3: "screenViewOverrides (fst st1) scr = None"
    using wfirst(1) by simp
  have wf1: "priv_trackScreenViews (fst st1)" "countlyProvider (fst st1) = countlyProvider s"
            "posthogProvider (fst st1) = posthogProvider s"
    using wfirst(1) enabled by simp_all
  have wf2: "priv_trackScreenViews (fst st2)" "countlyProvider (fst st2) = countlyProvider s"
            "posthogProvider (fst st2) = posthogProvider s"
            "screenViewOverrides (fst st2) scr = None"
    using run_onRouteChange_frame[of e urls st1 scr] w2 wf1 b3 by simp_all
  have wagain: "wcalls3 = snd (trackView e scr None (fst st2))"
    using onRouteChange_plain[OF names(1) waway wf2(4), of e] w3 by simp
  have q2: "getEnabledProviders (fst st2) = getEnabledProviders s"
    using wf2(2,3) by (rule getEnabledProviders_cong)
  have b4: "map provider_of wcalls3 = getEnabledProviders s"
    using wagain trackView_providers[OF wf2(1)] q2 by simp
  have b5: "\<forall>c\<in>set wcalls3. view_name c = Some scr"
    using wagain trackView_enabled_names[OF wf2(1)] by blast
  have c1: "screenViewOverrides (w_orch w) k = Some name
              \<and> undisturbed (touches_override k) e xs w
            \<longrightarrow> screenViewOverrides (w_orch (run e xs w)) k = Some name"
    using run_override_kept[of k e xs w] by simp
  have c2: "screenViewOverrides (w_orch w0) k0 = Some []
              \<and> undisturbed (reregisters k0) e ys w0
            \<longrightarrow> screenViewOverrides (w_orch (run e ys w0)) k0 = Some []"
    using run_empty_override_kept[of k0 e ys w0] by simp
  have c3: "screenViewOverrides t k0 = Some []
            \<longrightarrow> onStateChange e (Some k0) t =
                  (t\<lparr>routeNameRef := Some k0\<rparr>,
                   if k0 \<noteq> [] \<and> routeNameRef t \<noteq> Some k0
                   then snd (trackView e k0 None t) else [])
                \<and> onRouteChange e (Some k0) (t, pp) =
                  (if k0 \<noteq> [] \<and> pp \<noteq> Some k0
                   then ((t, Some k0), snd (trackView e k0 None t))
                   else ((t, pp), []))"
    using onStateChange_empty_name[of t k0 e] onRouteChange_empty_name[of t k0 e pp] by blast
  from a1 a2 a3 a4 a5 b1 b2 b3 b4 b5 c1 c2 c3 show ?thesis by blast
qed

text \<open>
  The theorem at work on the sample state with both providers: \<open>Login\<close> is overridden
  by \<open>Login-Custom\<close>, the user goes to \<open>Login\<close>, then to \<open>Home\<close>, then to \<open>Login\<close> again.
  The override of \<open>Login\<close> outlives a run of other operations, among them a transition
  to \<open>Home\<close>, an \<open>init\<close> and a \<open>reset\<close>; registered with the empty name, it outlives
  transitions to \<open>Login\<close> by both handlers, and the web handler tracks \<open>Login\<close>.
\<close>

lemma map_const_replicate: "(\<forall>c\<in>set cs. f c = x) \<Longrightarrow> map f cs = replicate (length cs) x"
  by (induction cs) simp_all

lemma two_views:
  assumes "map provider_of cs = [a, b]" and "\<forall>c\<in>set cs. view_name c = Some v"
  shows "map view_name cs = [Some v, Some v]"
proof -
  have "length (map provider_of cs) = length [a, b]" using assms(1) by simp
  then have "length cs = Suc (Suc 0)" by simp
  then show ?thesis using map_const_replicate[OF assms(2)] by simp
qed

lemma sample_state_providers: "getEnabledProviders sample_state = [''countly'', ''posthog'']"
  by (simp add: sample_state_eq getEnabledProviders_def countly_active_def posthog_active_def
      CountlyProvider_isInitialized_def PostHogProvider_isInitialized_def)

lemma getEnabledProviders_setScreenViewOverride [simp]:
  "getEnabledProviders (setScreenViewOverride scr custom s) = getEnabledProviders s"
  by (simp add: getEnabledProviders_def setScreenViewOverride_def countly_active_def
      posthog_active_def)

lemma run_onStateChange_single:
  "fst (run_onStateChange e [r] s) = fst (onStateChange e r s)"
  by (simp split: prod.splits)

lemma run_onRouteChange_single:
  "fst (run_onRouteChange e [r] st) = fst (onRouteChange e r st)"
  by (simp split: prod.splits)

theorem screen_view_override_consumed_once_witness:
  "''Login'' \<noteq> [] \<and> ''Login-Custom'' \<noteq> []
   \<and> priv_trackScreenViews (setScreenViewOverride ''Login'' ''Login-Custom'' sample_state)
   \<and> screenViewOverrides (setScreenViewOverride ''Login'' ''Login-Custom'' sample_state) ''Login''
       = Some ''Login-Custom''
   \<and> routeNameRef (setScreenViewOverride ''Login'' ''Login-Custom'' sample_state) \<noteq> Some ''Login''
   \<and> routeNameRef
        (fst (run_onStateChange sample_env [Some ''Home'']
           (fst (onStateChange sample_env (Some ''Login'')
              (setScreenViewOverride ''Login'' ''Login-Custom'' sample_state))))) \<noteq> Some ''Login''
   \<and> snd (fst (run_onRouteChange sample_env [Some ''Home'']
           (fst (onRouteChange sample_env (Some ''Login'')
              (setScreenViewOverride ''Login'' ''Login-Custom'' sample_state, None))))) \<noteq> Some ''Login''
   \<and> map view_name
        (snd (onStateChange sample_env (Some ''Login'')
           (setScreenViewOverride ''Login'' ''Login-Custom'' sample_state)))
       = [Some ''Login-Custom'', Some ''Login-Custom'']
   \<and> screenViewOverrides
        (fst (onStateChange sample_env (Some ''Login'')
           (setScreenViewOverride ''Login'' ''Login-Custom'' sample_state))) ''Login'' = None
   \<and> map view_name
        (snd (onStateChange sample_env (Some ''Login'')
           (fst (run_onStateChange sample_env [Some ''Home'']
              (fst (onStateChange sample_env (Some ''Login'')
                 (setScreenViewOverride ''Login'' ''Login-Custom'' sample_state)))))))
       = [Some ''Login'', Some ''Login'']
   \<and> map view_name
        (snd (onRouteChange sample_env (Some ''Login'')
           (setScreenViewOverride ''Login'' ''Login-Custom'' sample_state, None)))
       = [Some ''Login-Custom'', Some ''Login-Custom'']
   \<and> map view_name
        (snd (onRouteChange sample_env (Some ''Login'')
           (fst (run_onRouteChange sample_env [Some ''Home'']
              (fst (onRouteChange sample_env (Some ''Login'')
                 (setScreenViewOverride ''Login'' ''Login-Custom'' sample_state, None)))))))
       = [Some ''Login'', Some ''Login'']
   \<and> screenViewOverrides (w_orch (world_of (setScreenViewOverride ''Login'' ''Login-Custom'' sample_state))) ''Login'' = Some ''Login-Custom''
   \<and> undisturbed (touches_override ''Login'') sample_env
        [TrackEvent ''click'' None, OnStateChange (Some ''Home''), SetTrackScreenViews False,
         Init sample_config, OnRouteChange 0 (Some ''/home''),
         SetScreenViewOverride ''Home'' ''Start'', Reset, ClearGlobalProperties,
         TrackView ''Login'' None]
        (world_of (setScreenViewOverride ''Login'' ''Login-Custom'' sample_state))
   \<and> screenViewOverrides
        (w_orch (run sample_env
           [TrackEvent ''click'' None, OnStateChange (Some ''Home''), SetTrackScreenViews False,
         Init sample_config, OnRouteChange 0 (Some ''/home''),
         SetScreenViewOverride ''Home'' ''Start'', Reset, ClearGlobalProperties,
         TrackView ''Login'' None]
           (world_of (setScreenViewOverride ''Login'' ''Login-Custom'' sample_state)))) ''Login'' = Some ''Login-Custom''
   \<and> screenViewOverrides (w_orch (world_of (setScreenViewOverride ''Login'' [] sample_state))) ''Login'' = Some []
   \<and> undisturbed (reregisters ''Login'') sample_env
        [OnStateChange (Some ''Login''), OnRouteChange 0 (Some ''Login''),
         OnStateChange (Some ''Home''), OnStateChange (Some ''Login'')]
        (world_of (setScreenViewOverride ''Login'' [] sample_state))
   \<and> screenViewOverrides
        (w_orch (run sample_env
           [OnStateChange (Some ''Login''), OnRouteChange 0 (Some ''Login''),
         OnStateChange (Some ''Home''), OnStateChange (Some ''Login'')]
           (world_of (setScreenViewOverride ''Login'' [] sample_state)))) ''Login'' = Some []
   \<and> map view_name
        (snd (onRouteChange sample_env (Some ''Login'')
           (setScreenViewOverride ''Login'' [] sample_state, None)))
       = [Some ''Login'', Some ''Login'']
   \<and> screenViewOverrides
        (fst (fst (onRouteChange sample_env (Some ''Login'')
           (setScreenViewOverride ''Login'' [] sample_state, None)))) ''Login'' = Some []"
proof -
  let ?s = "setScreenViewOverride ''Login'' ''Login-Custom'' sample_state"
  let ?n1 = "onStateChange sample_env (Some ''Login'') ?s"
  let ?n2 = "run_onStateChange sample_env [Some ''Home''] (fst ?n1)"
  let ?n3 = "onStateChange sample_env (Some ''Login'') (fst ?n2)"
  let ?w1 = "onRouteChange sample_env (Some ''Login'') (?s, None)"
  let ?w2 = "run_onRouteChange sample_env [Some ''Home''] (fst ?w1)"
  let ?w3 = "onRouteChange sample_env (Some ''Login'') (fst ?w2)"
  have names: "''Login'' \<noteq> []" "''Login-Custom'' \<noteq> []" by simp_all
  have enabled: "priv_trackScreenViews ?s"
    by (simp add: setScreenViewOverride_def sample_state_eq)
  have registered: "screenViewOverrides ?s ''Login'' = Some ''Login-Custom''"
    by (simp add: setScreenViewOverride_def)
  have away: "routeNameRef ?s \<noteq> Some ''Login''" "None \<noteq> Some ''Login''"
    by (simp_all add: setScreenViewOverride_def sample_state_eq)
  have naway: "routeNameRef (fst ?n2) \<noteq> Some ''Login''"
    unfolding run_onStateChange_single using onStateChange_frame[of sample_env "Some ''Home''" "fst ?n1"] by simp
  have w1: "fst ?w1 = (?s\<lparr>screenViewOverrides := (screenViewOverrides ?s)(''Login'' := None)\<rparr>,
                       Some ''Login'')"
    using onRouteChange_override[OF names away(2) registered, of sample_env] by simp
  have waway: "snd (fst ?w2) \<noteq> Some ''Login''"
    unfolding run_onRouteChange_single w1
    by (subst onRouteChange_plain)
       (simp_all add: setScreenViewOverride_def sample_state_eq)
  let ?wd = "world_of ?s"
  let ?xs = "[TrackEvent ''click'' None, OnStateChange (Some ''Home''), SetTrackScreenViews False,
         Init sample_config, OnRouteChange 0 (Some ''/home''),
         SetScreenViewOverride ''Home'' ''Start'', Reset, ClearGlobalProperties,
         TrackView ''Login'' None]"
  let ?t = "setScreenViewOverride ''Login'' [] sample_state"
  let ?we = "world_of ?t"
  let ?ys = "[OnStateChange (Some ''Login''), OnRouteChange 0 (Some ''Login''),
         OnStateChange (Some ''Home''), OnStateChange (Some ''Login'')]"
  have held: "screenViewOverrides (w_orch ?wd) ''Login'' = Some ''Login-Custom''"
    by (simp add: world_of_def setScreenViewOverride_def)
  have quiet: "undisturbed (touches_override ''Login'') sample_env ?xs ?wd"
    by simp
  have empty: "screenViewOverrides (w_orch ?we) ''Login'' = Some []"
    by (simp add: world_of_def setScreenViewOverride_def)
  have tempty: "screenViewOverrides ?t ''Login'' = Some []"
    by (simp add: setScreenViewOverride_def)
  have noreg: "undisturbed (reregisters ''Login'') sample_env ?ys ?we"
    by simp
  have ten: "priv_trackScreenViews ?t"
    by (simp add: setScreenViewOverride_def sample_state_eq)
  have r: "\<And>x. x = (fst x, snd x)" by simp
  note inst = screen_view_override_consumed_once[OF names enabled registered away
      r[of ?n1] r[of ?n2] naway r[of ?n3] r[of ?w1] r[of ?w2] waway r[of ?w3],
      where w = ?wd and xs = ?xs and k = "''Login''" and name = "''Login-Custom''"
        and ?w0.0 = ?we and ys = ?ys and ?k0.0 = "''Login''" and t = ?t and pp = None]
  have p: "getEnabledProviders ?s = [''countly'', ''posthog'']"
    by (simp add: sample_state_providers)
  have i1: "map provider_of (snd ?n1) = getEnabledProviders ?s"
           "\<forall>c\<in>set (snd ?n1). view_name c = Some ''Login-Custom''"
    using inst by blast+
  have i3: "map provider_of (snd ?n3) = getEnabledProviders ?s"
           "\<forall>c\<in>set (snd ?n3). view_name c = Some ''Login''"
    using inst by blast+
  have j1: "map provider_of (snd ?w1) = getEnabledProviders ?s"
           "\<forall>c\<in>set (snd ?w1). view_name c = Some ''Login-Custom''"
    using inst by blast+
  have j3: "map provider_of (snd ?w3) = getEnabledProviders ?s"
           "\<forall>c\<in>set (snd ?w3). view_name c = Some ''Login''"
    using inst by blast+
  have v1: "map view_name (snd ?n1) = [Some ''Login-Custom'', Some ''Login-Custom'']"
    using i1 p by (intro two_views[of _ "''countly''" "''posthog''"]) simp_all
  have v3: "map view_name (snd ?n3) = [Some ''Login'', Some ''Login'']"
    using i3 p by (intro two_views[of _ "''countly''" "''posthog''"]) simp_all
  have u1: "map view_name (snd ?w1) = [Some ''Login-Custom'', Some ''Login-Custom'']"
    using j1 p by (intro two_views[of _ "''countly''" "''posthog''"]) simp_all
  have u3: "map view_name (snd ?w3) = [Some ''Login'', Some ''Login'']"
    using j3 p by (intro two_views[of _ "''countly''" "''posthog''"]) simp_all
  have o1: "screenViewOverrides (fst ?n1) ''Login'' = None"
    using inst by blast
  have k1: "screenViewOverrides (w_orch (run sample_env ?xs ?wd)) ''Login'' = Some ''Login-Custom''"
    using inst held quiet by blast
  have k2: "screenViewOverrides (w_orch (run sample_env ?ys ?we)) ''Login'' = Some []"
    using inst empty noreg by blast
  have k3: "onRouteChange sample_env (Some ''Login'') (?t, None)
              = ((?t, Some ''Login''), snd (trackView sample_env ''Login'' None ?t))"
    using inst tempty by simp
  have tp: "map provider_of (snd (trackView sample_env ''Login'' None ?t)) = [''countly'', ''posthog'']"
    using trackView_providers[OF ten] by (simp add: sample_state_providers)
  have tv: "\<forall>c\<in>set (snd (trackView sample_env ''Login'' None ?t)). view_name c = Some ''Login''"
    using trackView_enabled_names[OF ten] by blast
  have k4: "map view_name (snd (onRouteChange sample_env (Some ''Login'') (?t, None)))
              = [Some ''Login'', Some ''Login'']"
    unfolding k3 using two_views[OF tp tv] by simp
  have k5: "screenViewOverrides
              (fst (fst (onRouteChange sample_env (Some ''Login'') (?t, None)))) ''Login'' = Some []"
    unfolding k3 using tempty by simp
  show ?thesis
    using names enabled registered away(1) naway waway v1 o1 v3 u1 u3
      held quiet k1 empty noreg k2 k4 k5 by blast
qed

subsection \<open>An override with an empty custom name\<close>

text \<open>
  The handlers test the looked-up name for truthiness (\<^verbatim>\<open>if (customName)\<close>), so an
  override whose custom name is the empty string is treated as no override: the raw
  name is tracked and the entry stays.
\<close>

lemma onStateChange_empty_override:
  assumes "cur \<noteq> []" and "routeNameRef s \<noteq> Some cur" and "screenViewOverrides s cur = Some []"
  shows "onStateChange e (Some cur) s =
           (s\<lparr>routeNameRef := Some cur\<rparr>, snd (trackView e cur None s))"
proof -
  obtain cs where t: "trackView e cur None s = (s, cs)"
    using trackView_eq by blast
  show ?thesis using assms by (simp add: onStateChange_def Let_def t)
qed

text \<open>
  C4 as stated speaks of every registered override. With
  \<^verbatim>\<open>setScreenViewOverride('Login', '')\<close> on the sample state, the transition to
  \<open>Login\<close> tracks \<open>Login\<close> with both providers, not the custom name, and the entry is
  still there afterwards.
\<close>

theorem empty_override_is_not_consumed:
  "map view_name
     (snd (onStateChange sample_env (Some ''Login'')
        (setScreenViewOverride ''Login'' [] sample_state)))
     = [Some ''Login'', Some ''Login'']
   \<and> screenViewOverrides
        (fst (onStateChange sample_env (Some ''Login'')
           (setScreenViewOverride ''Login'' [] sample_state))) ''Login'' = Some []"
proof -
  let ?s = "setScreenViewOverride ''Login'' [] sample_state"
  have n: "''Login'' \<noteq> []" by simp
  have a: "routeNameRef ?s \<noteq> Some ''Login''"
    by (simp add: setScreenViewOverride_def sample_state_eq)
  have o: "screenViewOverrides ?s ''Login'' = Some []"
    by (simp add: setScreenViewOverride_def)
  have en: "priv_trackScreenViews ?s"
    by (simp add: setScreenViewOverride_def sample_state_eq)
  have st: "onStateChange sample_env (Some ''Login'') ?s
            = (?s\<lparr>routeNameRef := Some ''Login''\<rparr>, snd (trackView sample_env ''Login'' None ?s))"
    using onStateChange_empty_override[OF n a o] by simp
  have p: "map provider_of (snd (trackView sample_env ''Login'' None ?s)) = [''countly'', ''posthog'']"
    using trackView_providers[OF en] by (simp add: sample_state_providers)
  have v: "\<forall>c\<in>set (snd (trackView sample_env ''Login'' None ?s)). view_name c = Some ''Login''"
    using trackView_enabled_names[OF en] by blast
  show ?thesis
    unfolding st using two_views[OF p v] o by simp
qed

subsection \<open>An override met while tracking is disabled\<close>

text \<open>
  C9, as the code has it. Let the screen name and the custom name be non-empty, let
  the override be registered and screen-view tracking be disabled, and let the handler
  come from another route. Then the transition to the screen makes no SDK call, and
  the override is deleted all the same. Enabling tracking again does not bring it
  back: after \<open>setTrackScreenViews(true)\<close> and any run of transitions that ends on
  another route, a transition to the screen is tracked with the raw screen name by
  every active provider.
\<close>

theorem override_lost_while_tracking_disabled:
  assumes names: "scr \<noteq> []" "custom \<noteq> []"
      and disabled: "\<not> priv_trackScreenViews s"
      and registered: "screenViewOverrides s scr = Some custom"
      and away: "routeNameRef s \<noteq> Some scr"
      and n1: "onStateChange e (Some scr) s = (s1, calls1)"
      and n2: "run_onStateChange e routes (setTrackScreenViews True s1) = (s2, calls2)"
      and naway: "routeNameRef s2 \<noteq> Some scr"
      and n3: "onStateChange e (Some scr) s2 = (s3, calls3)"
  shows "calls1 = []
       \<and> screenViewOverrides s1 scr = None
       \<and> screenViewOverrides (setTrackScreenViews True s1) scr = None
       \<and> map provider_of calls3 = getEnabledProviders s
       \<and> (\<forall>c\<in>set calls3. view_name c = Some scr)"
proof -
  have first: "s1 = s\<lparr>screenViewOverrides := (screenViewOverrides s)(scr := None),
                      routeNameRef := Some scr\<rparr>"
              "calls1 = snd (trackView e custom None s)"
    using onStateChange_override[OF names away registered, of e] n1 by simp_all
  have a1: "calls1 = []"
    using first(2) trackView_disabled[OF disabled] by simp
  have a2: "screenViewOverrides s1 scr = None"
    using first(1) by simp
  let ?on = "setTrackScreenViews True s1"
  have a3: "screenViewOverrides ?on scr = None"
    using a2 by (simp add: setTrackScreenViews_def)
  have fr1: "priv_trackScreenViews ?on" "countlyProvider ?on = countlyProvider s"
            "posthogProvider ?on = posthogProvider s"
    using first(1) by (simp_all add: setTrackScreenViews_def)
  have fr2: "priv_trackScreenViews s2" "countlyProvider s2 = countlyProvider s"
            "posthogProvider s2 = posthogProvider s" "screenViewOverrides s2 scr = None"
    using run_onStateChange_frame[of e routes ?on scr] n2 fr1 a3 by simp_all
  have again: "calls3 = snd (trackView e scr None s2)"
    using onStateChange_plain[OF names(1) naway fr2(4), of e] n3 by simp
  have p2: "getEnabledProviders s2 = getEnabledProviders s"
    using fr2(2,3) by (rule getEnabledProviders_cong)
  have a4: "map provider_of calls3 = getEnabledProviders s"
    using again trackView_providers[OF fr2(1)] p2 by simp
  have a5: "\<forall>c\<in>set calls3. view_name c = Some scr"
    using again trackView_enabled_names[OF fr2(1)] by blast
  from a1 a2 a3 a4 a5 show ?thesis by blast
qed

theorem override_lost_while_tracking_disabled_witness:
  "''Login'' \<noteq> [] \<and> ''Login-Custom'' \<noteq> []
   \<and> \<not> priv_trackScreenViews
         (setTrackScreenViews False (setScreenViewOverride ''Login'' ''Login-Custom'' sample_state))
   \<and> screenViewOverrides
        (setTrackScreenViews False (setScreenViewOverride ''Login'' ''Login-Custom'' sample_state))
        ''Login'' = Some ''Login-Custom''
   \<and> routeNameRef
        (setTrackScreenViews False (setScreenViewOverride ''Login'' ''Login-Custom'' sample_state))
       \<noteq> Some ''Login''
   \<and> routeNameRef
        (fst (run_onStateChange sample_env [Some ''Home'']
           (setTrackScreenViews True
              (fst (onStateChange sample_env (Some ''Login'')
                 (setTrackScreenViews False
                    (setScreenViewOverride ''Login'' ''Login-Custom'' sample_state)))))))
       \<noteq> Some ''Login''
   \<and> snd (onStateChange sample_env (Some ''Login'')
           (setTrackScreenViews False
              (setScreenViewOverride ''Login'' ''Login-Custom'' sample_state))) = []
   \<and> screenViewOverrides
        (fst (onStateChange sample_env (Some ''Login'')
           (setTrackScreenViews False
              (setScreenViewOverride ''Login'' ''Login-Custom'' sample_state)))) ''Login'' = None
   \<and> map view_name
        (snd (onStateChange sample_env (Some ''Login'')
           (fst (run_onStateChange sample_env [Some ''Home'']
              (setTrackScreenViews True
                 (fst (onStateChange sample_env (Some ''Login'')
                    (setTrackScreenViews False
                       (setScreenViewOverride ''Login'' ''Login-Custom'' sample_state)))))))))
       = [Some ''Login'', Some ''Login'']"
proof -
  let ?s = "setTrackScreenViews False (setScreenViewOverride ''Login'' ''Login-Custom'' sample_state)"
  let ?n1 = "onStateChange sample_env (Some ''Login'') ?s"
  let ?n2 = "run_onStateChange sample_env [Some ''Home''] (setTrackScreenViews True (fst ?n1))"
  let ?n3 = "onStateChange sample_env (Some ''Login'') (fst ?n2)"
  have names: "''Login'' \<noteq> []" "''Login-Custom'' \<noteq> []" by simp_all
  have disabled: "\<not> priv_trackScreenViews ?s"
    by (simp add: setTrackScreenViews_def)
  have registered: "screenViewOverrides ?s ''Login'' = Some ''Login-Custom''"
    by (simp add: setTrackScreenViews_def setScreenViewOverride_def)
  have away: "routeNameRef ?s \<noteq> Some ''Login''"
    by (simp add: setTrackScreenViews_def setScreenViewOverride_def sample_state_eq)
  have naway: "routeNameRef (fst ?n2) \<noteq> Some ''Login''"
    unfolding run_onStateChange_single
    using onStateChange_frame[of sample_env "Some ''Home''" "setTrackScreenViews True (fst ?n1)"]
    by simp
  have r: "\<And>x. x = (fst x, snd x)" by simp
  note inst = override_lost_while_tracking_disabled[OF names disabled registered away
      r[of ?n1] r[of ?n2] naway r[of ?n3]]
  have p: "getEnabledProviders ?s = [''countly'', ''posthog'']"
    by (simp add: sample_state_providers)
  have v3: "map view_name (snd ?n3) = [Some ''Login'', Some ''Login'']"
    using inst p by (intro two_views[of _ "''countly''" "''posthog''"]) simp_all
  have c1: "snd ?n1 = []" using inst by simp
  have o1: "screenViewOverrides (fst ?n1) ''Login'' = None" using inst by simp
  show ?thesis
    using names disabled registered away naway c1 o1 v3 by blast
qed

text \<open>
  C9 as stated speaks of every registered override. With an empty custom name the
  transition made while tracking is disabled makes no call either, but the entry is
  not deleted.
\<close>

theorem empty_override_survives_disabled_transition:
  "snd (onStateChange sample_env (Some ''Login'')
          (setTrackScreenViews False (setScreenViewOverride ''Login'' [] sample_state))) = []
   \<and> screenViewOverrides
        (fst (onStateChange sample_env (Some ''Login'')
           (setTrackScreenViews False (setScreenViewOverride ''Login'' [] sample_state))))
        ''Login'' = Some []"
proof -
  let ?s = "setTrackScreenViews False (setScreenViewOverride ''Login'' [] sample_state)"
  have n: "''Login'' \<noteq> []" by simp
  have a: "routeNameRef ?s \<noteq> Some ''Login''"
    by (simp add: setTrackScreenViews_def setScreenViewOverride_def sample_state_eq)
  have o: "screenViewOverrides ?s ''Login'' = Some []"
    by (simp add: setTrackScreenViews_def setScreenViewOverride_def)
  have d: "\<not> priv_trackScreenViews ?s"
    by (simp add: setTrackScreenViews_def)
  have st: "onStateChange sample_env (Some ''Login'') ?s
            = (?s\<lparr>routeNameRef := Some ''Login''\<rparr>, snd (trackView sample_env ''Login'' None ?s))"
    using onStateChange_empty_override[OF n a o] by simp
  show ?thesis
    unfolding st using o trackView_disabled[OF d] by simp
qed

section \<open>The screen-view switch across other operations\<close>

text \<open>The switch after one operation.\<close>

lemma switch_after_op:
  "priv_trackScreenViews (w_orch (apply_op e x w)) =
     (if switches_on x w then True
      else if switches_off x w then False
      else priv_trackScreenViews (w_orch w))"
proof (cases x)
  case (Init cfg)
  then show ?thesis
    using init_switch[of e cfg "w_orch w" "w_currentPlatform w"]
    by (auto simp: init_reaches_switch_def split: prod.splits)
next
  case (OnStateChange r)
  then show ?thesis using onStateChange_frame[of e r "w_orch w"] by simp
next
  case (OnRouteChange n r)
  obtain s1 p1 c1 where o: "onRouteChange e r (w_orch w, w_previousPath w n) = ((s1, p1), c1)"
    by (metis surj_pair)
  show ?thesis
    using onRouteChange_frame[of e r "(w_orch w, w_previousPath w n)"] OnRouteChange
    by (simp add: o)
next
  case (SetGlobalProperties properties)
  then show ?thesis by (simp add: setGlobalProperties_def Let_def split: option.splits)
next
  case (RemoveGlobalProperty key)
  then show ?thesis by (simp add: removeGlobalProperty_def Let_def split: option.splits)
next
  case ClearGlobalProperties
  then show ?thesis by (simp add: clearGlobalProperties_def Let_def split: option.splits)
next
  case Reset
  then show ?thesis by (simp add: reset_def split: option.splits)
next
  case (OnFeatureFlagsChange cb)
  then show ?thesis by (simp add: onFeatureFlagsChange_def split: option.splits)
qed (simp_all add: trackEvent_def trackEventToProviders_def trackView_state
      setScreenViewOverride_def clearScreenViewOverride_def setTrackScreenViews_def
      onReady_def split: sum.splits)

lemma run_switch_stays_off:
  "\<not> priv_trackScreenViews (w_orch w) \<Longrightarrow> undisturbed switches_on e xs w \<Longrightarrow>
   \<not> priv_trackScreenViews (w_orch (run e xs w))"
proof (induction xs arbitrary: w)
  case Nil
  then show ?case by simp
next
  case (Cons x xs)
  have "\<not> priv_trackScreenViews (w_orch (apply_op e x w))"
    using Cons.prems by (simp add: switch_after_op)
  then show ?case using Cons.IH[of "apply_op e x w"] Cons.prems by simp
qed

lemma run_switch_stays_on:
  "priv_trackScreenViews (w_orch w) \<Longrightarrow> undisturbed switches_off e xs w \<Longrightarrow>
   priv_trackScreenViews (w_orch (run e xs w))"
proof (induction xs arbitrary: w)
  case Nil
  then show ?case by simp
next
  case (Cons x xs)
  have "priv_trackScreenViews (w_orch (apply_op e x w))"
    using Cons.prems by (simp add: switch_after_op)
  then show ?case using Cons.IH[of "apply_op e x w"] Cons.prems by simp
qed

lemma apply_op_TrackView: "apply_op e (TrackView v properties) w = w"
  by (simp add: trackView_state)

text \<open>
  C8, as the code has it. After \<open>setTrackScreenViews(false)\<close>, any run of \<open>trackView\<close>
  calls makes no SDK call at all and returns the state it started from, so no store of
  the orchestrator or of a provider changes; and this stays so after any run of other
  operations, as long as none of them switches tracking on: \<open>setTrackScreenViews(true)\<close>,
  or an \<open>init\<close> that initialises the orchestrator (not yet initialised, a valid
  configuration, a platform that is accepted) with \<open>trackScreenViews\<close> other than
  \<open>false\<close>. After \<open>setTrackScreenViews(true)\<close>, a \<open>trackView\<close> call reaches every active
  provider: the calls it makes go, one each and in order, to the providers that
  \<open>getEnabledProviders\<close> lists, and the state is unchanged; and this stays so after any
  run of other operations, as long as none of them switches tracking off:
  \<open>setTrackScreenViews(false)\<close>, or an initialising \<open>init\<close> with \<open>trackScreenViews: false\<close>.
\<close>

theorem trackView_follows_switch:
  assumes off: "w_orch w = setTrackScreenViews False s"
      and quiet: "undisturbed switches_on e xs w"
      and on: "w_orch w' = setTrackScreenViews True s'"
      and loud: "undisturbed switches_off e xs' w'"
  shows "run_trackView e vs (setTrackScreenViews False s) = (setTrackScreenViews False s, [])
       \<and> fst (trackView e v properties (setTrackScreenViews True s)) = setTrackScreenViews True s
       \<and> map provider_of (snd (trackView e v properties (setTrackScreenViews True s)))
           = getEnabledProviders s
       \<and> trackView e v properties (w_orch (run e xs w)) = (w_orch (run e xs w), [])
       \<and> apply_op e (TrackView v properties) (run e xs w) = run e xs w
       \<and> fst (trackView e v properties (w_orch (run e xs' w'))) = w_orch (run e xs' w')
       \<and> map provider_of (snd (trackView e v properties (w_orch (run e xs' w'))))
           = getEnabledProviders (w_orch (run e xs' w'))"
proof -
  have off0: "\<not> priv_trackScreenViews (setTrackScreenViews False s)"
    by (simp add: setTrackScreenViews_def)
  have on0: "priv_trackScreenViews (setTrackScreenViews True s)"
    by (simp add: setTrackScreenViews_def)
  have a1: "run_trackView e vs (setTrackScreenViews False s) = (setTrackScreenViews False s, [])"
    using off0 by (rule run_trackView_disabled)
  have a2: "fst (trackView e v properties (setTrackScreenViews True s)) = setTrackScreenViews True s"
    by (rule trackView_state)
  have a3: "map provider_of (snd (trackView e v properties (setTrackScreenViews True s)))
              = getEnabledProviders s"
    using trackView_providers[OF on0] by simp
  have "\<not> priv_trackScreenViews (w_orch w)" using off off0 by simp
  then have "\<not> priv_trackScreenViews (w_orch (run e xs w))"
    using quiet by (rule run_switch_stays_off)
  then have b1: "trackView e v properties (w_orch (run e xs w)) = (w_orch (run e xs w), [])"
    by (rule trackView_disabled)
  have b2: "apply_op e (TrackView v properties) (run e xs w) = run e xs w"
    by (rule apply_op_TrackView)
  have "priv_trackScreenViews (w_orch w')"
    using on by (simp add: setTrackScreenViews_def)
  then have en: "priv_trackScreenViews (w_orch (run e xs' w'))"
    using loud by (rule run_switch_stays_on)
  have c1: "fst (trackView e v properties (w_orch (run e xs' w'))) = w_orch (run e xs' w')"
    by (rule trackView_state)
  have c2: "map provider_of (snd (trackView e v properties (w_orch (run e xs' w'))))
              = getEnabledProviders (w_orch (run e xs' w'))"
    using en by (rule trackView_providers)
  from a1 a2 a3 b1 b2 c1 c2 show ?thesis by blast
qed


text \<open>
  The theorem at work on the sample state with both providers. With tracking switched
  off, an \<open>init\<close> on the initialised orchestrator (which returns at once), an event,
  a transition and further calls do not bring \<open>trackView\<close> back; with tracking switched
  on, \<open>trackView\<close> after an event reaches Countly and PostHog.
\<close>

theorem trackView_follows_switch_witness:
  "w_orch (world_of (setTrackScreenViews False sample_state)) = setTrackScreenViews False sample_state
   \<and> undisturbed switches_on sample_env
        [Init sample_config, TrackEvent ''click'' None, OnStateChange (Some ''Home''),
         SetTrackScreenViews False, TrackView ''Home'' None]
        (world_of (setTrackScreenViews False sample_state))
   \<and> w_orch (world_of (setTrackScreenViews True sample_state)) = setTrackScreenViews True sample_state
   \<and> undisturbed switches_off sample_env [TrackEvent ''click'' None]
        (world_of (setTrackScreenViews True sample_state))
   \<and> trackView sample_env ''Home'' None
        (w_orch (run sample_env
           [Init sample_config, TrackEvent ''click'' None, OnStateChange (Some ''Home''),
            SetTrackScreenViews False, TrackView ''Home'' None]
           (world_of (setTrackScreenViews False sample_state))))
       = (w_orch (run sample_env
           [Init sample_config, TrackEvent ''click'' None, OnStateChange (Some ''Home''),
            SetTrackScreenViews False, TrackView ''Home'' None]
           (world_of (setTrackScreenViews False sample_state))), [])
   \<and> map provider_of
        (snd (trackView sample_env ''Home'' None
           (w_orch (run sample_env [TrackEvent ''click'' None]
              (world_of (setTrackScreenViews True sample_state))))))
       = [''countly'', ''posthog'']"
proof -
  let ?xs = "[Init sample_config, TrackEvent ''click'' None, OnStateChange (Some ''Home''),
              SetTrackScreenViews False, TrackView ''Home'' None]"
  let ?w = "world_of (setTrackScreenViews False sample_state)"
  let ?w' = "world_of (setTrackScreenViews True sample_state)"
  have off: "w_orch ?w = setTrackScreenViews False sample_state"
    by (simp add: world_of_def)
  have on: "w_orch ?w' = setTrackScreenViews True sample_state"
    by (simp add: world_of_def)
  have i: "initialized (w_orch ?w)"
    by (simp add: world_of_def setTrackScreenViews_def sample_state_eq)
  have quiet: "undisturbed switches_on sample_env ?xs ?w"
    using i by (simp add: init_reaches_switch_def)
  have loud: "undisturbed switches_off sample_env [TrackEvent ''click'' None] ?w'"
    by simp
  note inst = trackView_follows_switch[OF off quiet on loud,
      of "[]" "''Home''" None]
  have r: "w_orch (run sample_env [TrackEvent ''click'' None] ?w')
             = setTrackScreenViews True sample_state"
    by (simp add: world_of_def trackEvent_def trackEventToProviders_def)
  have p: "getEnabledProviders (w_orch (run sample_env [TrackEvent ''click'' None] ?w'))
             = [''countly'', ''posthog'']"
    unfolding r by (simp add: sample_state_providers)
  have silent: "trackView sample_env ''Home'' None (w_orch (run sample_env ?xs ?w))
                  = (w_orch (run sample_env ?xs ?w), [])"
    using inst by blast
  have heard: "map provider_of
        (snd (trackView sample_env ''Home'' None
           (w_orch (run sample_env [TrackEvent ''click'' None] ?w'))))
       = getEnabledProviders (w_orch (run sample_env [TrackEvent ''click'' None] ?w'))"
    using inst by blast
  from off quiet on loud silent heard p show ?thesis by metis
qed

text \<open>
  C8 as stated speaks of every subsequent \<open>trackView\<close> call. On the freshly constructed
  orchestrator, \<^verbatim>\<open>setTrackScreenViews(false)\<close> followed by \<open>init\<close> with the sample
  configuration (which does not mention \<open>trackScreenViews\<close>) leaves tracking switched
  on: \<open>init\<close> assigns \<^verbatim>\<open>config.trackScreenViews !== false\<close>. The \<open>trackView\<close> call that
  follows is dispatched to Countly and to PostHog.
\<close>

theorem init_switches_tracking_back_on:
  "\<not> priv_trackScreenViews (setTrackScreenViews False new_UnifiedAnalytics)
   \<and> fst (init sample_env sample_config (setTrackScreenViews False new_UnifiedAnalytics) None)
       = None
   \<and> map provider_of
        (snd (trackView sample_env ''Home'' None
           (fst (snd (init sample_env sample_config
              (setTrackScreenViews False new_UnifiedAnalytics) None)))))
       = [''countly'', ''posthog'']"
proof -
  let ?s = "setTrackScreenViews False new_UnifiedAnalytics"
  have n: "\<not> initialized ?s"
    by (simp add: setTrackScreenViews_def new_UnifiedAnalytics_def)
  have off: "\<not> priv_trackScreenViews ?s"
    by (simp add: setTrackScreenViews_def)
  let ?s1 = "fst (snd (init sample_env sample_config ?s None))"
  have on: "priv_trackScreenViews ?s1"
    by (simp add: sample_init_any[OF n])
  have p: "getEnabledProviders ?s1 = [''countly'', ''posthog'']"
    by (simp add: sample_init_any[OF n] getEnabledProviders_def countly_active_def
        posthog_active_def CountlyProvider_isInitialized_def PostHogProvider_isInitialized_def)
  have r: "fst (init sample_env sample_config ?s None) = None"
    by (simp add: sample_init_any[OF n])
  show ?thesis
    using off r trackView_providers[OF on, of sample_env "''Home''" None] p by simp
qed


section \<open>Reads of the global properties return shallow copies\<close>

lemma new_object_fresh:
  assumes "new_object obj h = (r, h1)"
  shows "r = length h" and "length h1 = Suc (length h)" and "contents h1 r = obj"
    and "\<And>x. x < length h \<Longrightarrow> contents h1 x = contents h x"
  using assms by (auto simp: new_object_def contents_def nth_append)

lemma spread_fresh:
  assumes "spread c h = (r, h1)"
  shows "r = length h" and "length h1 = Suc (length h)" and "contents h1 r = contents h c"
    and "\<And>x. x < length h \<Longrightarrow> contents h1 x = contents h x"
  using assms new_object_fresh[of "Map.empty ++ contents h c" h r h1]
  by (simp_all add: spread_def)

lemma assign_key_frame:
  "length (assign_key a key v h) = length h"
  "x \<noteq> a \<Longrightarrow> contents (assign_key a key v h) x = contents h x"
  by (simp_all add: assign_key_def contents_def)

lemma delete_key_frame:
  "length (delete_key a key h) = length h"
  "x \<noteq> a \<Longrightarrow> contents (delete_key a key h) x = contents h x"
  by (simp_all add: delete_key_def contents_def)

lemma mutate1_top_frame:
  assumes "top_level m"
  shows "length (mutate1 r m h) = length h"
    and "x \<noteq> r \<Longrightarrow> contents (mutate1 r m h) x = contents h x"
  using assms by (cases m; simp add: assign_key_frame delete_key_frame)+

lemma mutate_top_frame:
  "list_all top_level ms \<Longrightarrow>
   length (mutate r ms h) = length h \<and> (x \<noteq> r \<longrightarrow> contents (mutate r ms h) x = contents h x)"
  by (induction ms arbitrary: h) (simp_all add: mutate1_top_frame)

text \<open>Every read allocates its result: the address is the next free one.\<close>

lemma getGlobalProperties_ref_fresh:
  assumes "getGlobalProperties_ref s h = (r, h1)"
  shows "r = length h" and "length h1 = Suc (length h)"
    and "\<And>x. x < length h \<Longrightarrow> contents h1 x = contents h x"
  using assms
  by (auto simp: getGlobalProperties_ref_def CountlyProvider_getUserContext_ref_def
      PostHogProvider_getRegisteredProperties_ref_def Countly_getUserContext_ref_def
      PostHog_getRegisteredProperties_ref_def Let_def
      dest: new_object_fresh spread_fresh split: option.splits if_splits)

text \<open>The object a read returns holds the entries of the first active store.\<close>

lemma getGlobalProperties_ref_source:
  assumes "getGlobalProperties_ref s h = (r, h1)"
  shows "contents h1 r =
           (case first_active_store s of None \<Rightarrow> Map.empty | Some c \<Rightarrow> contents h c)"
  using assms
  by (auto simp: getGlobalProperties_ref_def first_active_store_def
      CountlyProvider_getUserContext_ref_def
      PostHogProvider_getRegisteredProperties_ref_def Countly_getUserContext_ref_def
      PostHog_getRegisteredProperties_ref_def CountlyProvider_isInitialized_ref_def
      PostHogProvider_isInitialized_ref_def Let_def
      dest!: new_object_fresh(3) spread_fresh(3) split: option.splits if_splits)

lemma first_active_store_allocated:
  assumes "allocated h (store_refs s)" and "first_active_store s = Some c"
  shows "c < length h"
  using assms
  by (auto simp: allocated_def store_refs_def first_active_store_def Let_def
      split: option.splits if_splits)

text \<open>
  C10, as the code has it. \<open>getGlobalProperties\<close>, \<open>getUserContext\<close> and
  \<open>getRegisteredProperties\<close> return a new object, one that did not exist before the
  call, holding the entries of the provider's store (for \<open>getGlobalProperties\<close> the
  store of the first active provider, and no entry when no provider is active); a
  nested object is shared with the store, not copied. Assigning to keys of the returned
  object and deleting keys from it, in any number and order, leaves the store and
  every other object that existed before the read as they were, and a second read
  after these changes returns the contents that the first read returned.
\<close>

theorem reads_return_fresh_shallow_copies:
  assumes wf: "allocated h (store_refs s)"
      and top: "list_all top_level ms"
      and rd1: "getGlobalProperties_ref s h = (r, h1)"
      and rd2: "getGlobalProperties_ref s (mutate r ms h1) = (r2, h2)"
      and cwf: "cr_userContext a < length h"
      and crd1: "Countly_getUserContext_ref a h = (rc, hc)"
      and crd2: "Countly_getUserContext_ref a (mutate rc ms hc) = (rc2, hc2)"
      and pwf: "pr_registeredProperties b < length h"
      and prd1: "PostHog_getRegisteredProperties_ref b h = (rp, hp)"
      and prd2: "PostHog_getRegisteredProperties_ref b (mutate rp ms hp) = (rp2, hp2)"
  shows "r = length h
       \<and> contents h1 r
           = (case first_active_store s of None \<Rightarrow> Map.empty | Some c \<Rightarrow> contents h c)
       \<and> (\<forall>x. x < length h \<longrightarrow> contents (mutate r ms h1) x = contents h x)
       \<and> contents h2 r2 = contents h1 r
       \<and> (\<forall>x. x < length h \<longrightarrow> contents h2 x = contents h x)
       \<and> rc = length h
       \<and> contents hc rc = contents h (cr_userContext a)
       \<and> (\<forall>x. x < length h \<longrightarrow> contents (mutate rc ms hc) x = contents h x)
       \<and> contents hc2 rc2 = contents h (cr_userContext a)
       \<and> (\<forall>x. x < length h \<longrightarrow> contents hc2 x = contents h x)
       \<and> rp = length h
       \<and> contents hp rp = contents h (pr_registeredProperties b)
       \<and> (\<forall>x. x < length h \<longrightarrow> contents (mutate rp ms hp) x = contents h x)
       \<and> contents hp2 rp2 = contents h (pr_registeredProperties b)
       \<and> (\<forall>x. x < length h \<longrightarrow> contents hp2 x = contents h x)"
proof -
  have old: "\<And>r' h' x. r' = length h \<Longrightarrow> (\<And>y. y < length h \<Longrightarrow> contents h' y = contents h y)
               \<Longrightarrow> x < length h \<Longrightarrow> contents (mutate r' ms h') x = contents h x"
    using mutate_top_frame[OF top] by (metis nat_neq_iff)
  have len: "\<And>r' h'. length (mutate r' ms h') = length h'"
    using mutate_top_frame[OF top] by blast
  (* getGlobalProperties *)
  have g1: "r = length h" using rd1 by (rule getGlobalProperties_ref_fresh(1))
  have g2: "contents h1 r
              = (case first_active_store s of None \<Rightarrow> Map.empty | Some c \<Rightarrow> contents h c)"
    using rd1 by (rule getGlobalProperties_ref_source)
  have g3: "\<forall>x. x < length h \<longrightarrow> contents (mutate r ms h1) x = contents h x"
    using old[OF g1 getGlobalProperties_ref_fresh(3)[OF rd1]] by blast
  have l1: "length (mutate r ms h1) = Suc (length h)"
    using len getGlobalProperties_ref_fresh(2)[OF rd1] by simp
  have g5: "\<forall>x. x < length h \<longrightarrow> contents h2 x = contents h x"
    using getGlobalProperties_ref_fresh(3)[OF rd2] g3 l1 by simp
  have g4: "contents h2 r2 = contents h1 r"
  proof (cases "first_active_store s")
    case None
    then show ?thesis using getGlobalProperties_ref_source[OF rd2] g2 by simp
  next
    case (Some c)
    then have "c < length h" using wf by (rule first_active_store_allocated[rotated])
    then show ?thesis using getGlobalProperties_ref_source[OF rd2] g2 g3 Some by simp
  qed
  (* getUserContext *)
  have sc: "spread (cr_userContext a) h = (rc, hc)"
    using crd1 by (simp add: Countly_getUserContext_ref_def)
  have sc2: "spread (cr_userContext a) (mutate rc ms hc) = (rc2, hc2)"
    using crd2 by (simp add: Countly_getUserContext_ref_def)
  have c1: "rc = length h" using sc by (rule spread_fresh(1))
  have c2: "contents hc rc = contents h (cr_userContext a)" using sc by (rule spread_fresh(3))
  have c3: "\<forall>x. x < length h \<longrightarrow> contents (mutate rc ms hc) x = contents h x"
    using old[OF c1 spread_fresh(4)[OF sc]] by blast
  have lc: "length (mutate rc ms hc) = Suc (length h)"
    using len spread_fresh(2)[OF sc] by simp
  have c4: "contents hc2 rc2 = contents h (cr_userContext a)"
    using spread_fresh(3)[OF sc2] c3 cwf by simp
  have c5: "\<forall>x. x < length h \<longrightarrow> contents hc2 x = contents h x"
    using spread_fresh(4)[OF sc2] c3 lc by simp
  (* getRegisteredProperties *)
  have sp: "spread (pr_registeredProperties b) h = (rp, hp)"
    using prd1 by (simp add: PostHog_getRegisteredProperties_ref_def)
  have sp2: "spread (pr_registeredProperties b) (mutate rp ms hp) = (rp2, hp2)"
    using prd2 by (simp add: PostHog_getRegisteredProperties_ref_def)
  have p1: "rp = length h" using sp by (rule spread_fresh(1))
  have p2: "contents hp rp = contents h (pr_registeredProperties b)"
    using sp by (rule spread_fresh(3))
  have p3: "\<forall>x. x < length h \<longrightarrow> contents (mutate rp ms hp) x = contents h x"
    using old[OF p1 spread_fresh(4)[OF sp]] by blast
  have lp: "length (mutate rp ms hp) = Suc (length h)"
    using len spread_fresh(2)[OF sp] by simp
  have p4: "contents hp2 rp2 = contents h (pr_registeredProperties b)"
    using spread_fresh(3)[OF sp2] p3 pwf by simp
  have p5: "\<forall>x. x < length h \<longrightarrow> contents hp2 x = contents h x"
    using spread_fresh(4)[OF sp2] p3 lp by simp
  from g1 g2 g3 g4 g5 c1 c2 c3 c4 c5 p1 p2 p3 p4 p5 show ?thesis by blast
qed

text \<open>
  The theorem at work: the sample orchestrator reads its Countly context, the caller
  overwrites \<open>plan\<close>, deletes \<open>user\<close> and adds \<open>x\<close> in the object it got; the stored
  context is as before and the second read returns it.
\<close>

lemma sample_read:
  "getGlobalProperties_ref sample_state_ref h = spread 0 h"
  by (simp add: getGlobalProperties_ref_def sample_state_ref_def
      CountlyProvider_isInitialized_ref_def CountlyProvider_getUserContext_ref_def
      Countly_getUserContext_ref_def)

lemma sample_first_read:
  "getGlobalProperties_ref sample_state_ref sample_store
     = (Suc (Suc (Suc 0)),
        sample_store @ [[''plan'' \<mapsto> HStr ''pro'', ''user'' \<mapsto> HRef (Suc (Suc 0))]])"
  by (simp add: sample_read spread_def new_object_def sample_store_def contents_def)

theorem reads_return_fresh_shallow_copies_witness:
  "allocated sample_store (store_refs sample_state_ref)
   \<and> list_all top_level [Assign [] ''plan'' (HStr ''free''), Delete [] ''user'', Assign [] ''x'' HNull]
   \<and> fst (getGlobalProperties_ref sample_state_ref sample_store) = Suc (Suc (Suc 0))
   \<and> contents (snd (getGlobalProperties_ref sample_state_ref sample_store)) (Suc (Suc (Suc 0)))
       = [''plan'' \<mapsto> HStr ''pro'', ''user'' \<mapsto> HRef (Suc (Suc 0))]
   \<and> contents
        (mutate (Suc (Suc (Suc 0)))
           [Assign [] ''plan'' (HStr ''free''), Delete [] ''user'', Assign [] ''x'' HNull]
           (snd (getGlobalProperties_ref sample_state_ref sample_store))) (Suc (Suc (Suc 0)))
       = [''plan'' \<mapsto> HStr ''free'', ''x'' \<mapsto> HNull]
   \<and> contents
        (mutate (Suc (Suc (Suc 0)))
           [Assign [] ''plan'' (HStr ''free''), Delete [] ''user'', Assign [] ''x'' HNull]
           (snd (getGlobalProperties_ref sample_state_ref sample_store))) 0
       = [''plan'' \<mapsto> HStr ''pro'', ''user'' \<mapsto> HRef (Suc (Suc 0))]
   \<and> contents
        (snd (getGlobalProperties_ref sample_state_ref
           (mutate (Suc (Suc (Suc 0)))
              [Assign [] ''plan'' (HStr ''free''), Delete [] ''user'', Assign [] ''x'' HNull]
              (snd (getGlobalProperties_ref sample_state_ref sample_store)))))
        (fst (getGlobalProperties_ref sample_state_ref
           (mutate (Suc (Suc (Suc 0)))
              [Assign [] ''plan'' (HStr ''free''), Delete [] ''user'', Assign [] ''x'' HNull]
              (snd (getGlobalProperties_ref sample_state_ref sample_store)))))
       = [''plan'' \<mapsto> HStr ''pro'', ''user'' \<mapsto> HRef (Suc (Suc 0))]"
proof -
  let ?ms = "[Assign [] ''plan'' (HStr ''free''), Delete [] ''user'', Assign [] ''x'' HNull]"
  let ?a = "\<lparr>cr_initialized = True, cr_userContext = 0\<rparr>"
  let ?b = "\<lparr>pr_initialized = True, pr_registeredProperties = Suc 0\<rparr>"
  let ?r = "Suc (Suc (Suc 0))"
  let ?ctx = "[''plan'' \<mapsto> HStr ''pro'', ''user'' \<mapsto> HRef (Suc (Suc 0))]"
  let ?rd1 = "getGlobalProperties_ref sample_state_ref sample_store"
  let ?rd2 = "getGlobalProperties_ref sample_state_ref (mutate ?r ?ms (snd ?rd1))"
  let ?c1 = "Countly_getUserContext_ref ?a sample_store"
  let ?c2 = "Countly_getUserContext_ref ?a (mutate (fst ?c1) ?ms (snd ?c1))"
  let ?p1 = "PostHog_getRegisteredProperties_ref ?b sample_store"
  let ?p2 = "PostHog_getRegisteredProperties_ref ?b (mutate (fst ?p1) ?ms (snd ?p1))"
  have wf: "allocated sample_store (store_refs sample_state_ref)"
    by (simp add: allocated_def store_refs_def sample_state_ref_def sample_store_def)
  have top: "list_all top_level ?ms" by simp
  have cwf: "cr_userContext ?a < length sample_store" by (simp add: sample_store_def)
  have pwf: "pr_registeredProperties ?b < length sample_store" by (simp add: sample_store_def)
  have r: "\<And>x. x = (fst x, snd x)" by simp
  have f: "fst ?rd1 = ?r" by (simp add: sample_first_read)
  have rd1: "?rd1 = (?r, snd ?rd1)" using f r[of ?rd1] by simp
  note inst = reads_return_fresh_shallow_copies[OF wf top rd1 r[of ?rd2] cwf r[of ?c1]
      r[of ?c2] pwf r[of ?p1] r[of ?p2]]
  have c0: "contents sample_store 0 = ?ctx"
    by (simp add: contents_def sample_store_def)
  have src: "first_active_store sample_state_ref = Some 0"
    by (simp add: first_active_store_def sample_state_ref_def)
  have i2: "contents (snd ?rd1) ?r
              = (case first_active_store sample_state_ref of
                   None \<Rightarrow> Map.empty | Some c \<Rightarrow> contents sample_store c)"
    using inst by blast
  have first: "contents (snd ?rd1) ?r = ?ctx"
    unfolding i2 src using c0 by simp
  have mutated: "contents (mutate ?r ?ms (snd ?rd1)) ?r
                   = [''plan'' \<mapsto> HStr ''free'', ''x'' \<mapsto> HNull]"
    unfolding sample_first_read snd_conv
    by (rule ext) (simp add: contents_def sample_store_def assign_key_def delete_key_def)
  have i3: "\<forall>x. x < length sample_store
              \<longrightarrow> contents (mutate ?r ?ms (snd ?rd1)) x = contents sample_store x"
    using inst by blast
  have lt: "(0::nat) < length sample_store" by (simp add: sample_store_def)
  have kept: "contents (mutate ?r ?ms (snd ?rd1)) 0 = ?ctx"
    using i3 lt c0 by metis
  have i4: "contents (snd ?rd2) (fst ?rd2) = contents (snd ?rd1) ?r"
    using inst by blast
  have again: "contents (snd ?rd2) (fst ?rd2) = ?ctx"
    unfolding i4 by (rule first)
  from wf top f first mutated kept again show ?thesis by blast
qed

text \<open>
  C10 as stated speaks of any mutation of the returned mapping. The copy is shallow:
  the sample context holds an object under \<open>user\<close>, and the returned object holds a
  reference to the same object. After \<^verbatim>\<open>g.user.id = 2\<close> on the returned object \<open>g\<close>, the
  stored context reads \<open>user.id = 2\<close> where it read \<open>1\<close>, and so does the result of a
  second read.
\<close>

theorem nested_mutation_reaches_store:
  "property sample_store 0 [''user''] ''id'' = Some (HNum 1)
   \<and> fst (getGlobalProperties_ref sample_state_ref sample_store) = Suc (Suc (Suc 0))
   \<and> property
        (mutate (Suc (Suc (Suc 0))) [Assign [''user''] ''id'' (HNum 2)]
           (snd (getGlobalProperties_ref sample_state_ref sample_store)))
        0 [''user''] ''id'' = Some (HNum 2)
   \<and> property
        (snd (getGlobalProperties_ref sample_state_ref
           (mutate (Suc (Suc (Suc 0))) [Assign [''user''] ''id'' (HNum 2)]
              (snd (getGlobalProperties_ref sample_state_ref sample_store)))))
        (fst (getGlobalProperties_ref sample_state_ref
           (mutate (Suc (Suc (Suc 0))) [Assign [''user''] ''id'' (HNum 2)]
              (snd (getGlobalProperties_ref sample_state_ref sample_store)))))
        [''user''] ''id'' = Some (HNum 2)"
proof -
  have m: "mutate (Suc (Suc (Suc 0))) [Assign [''user''] ''id'' (HNum 2)]
             (snd (getGlobalProperties_ref sample_state_ref sample_store))
           = [[''plan'' \<mapsto> HStr ''pro'', ''user'' \<mapsto> HRef (Suc (Suc 0))],
              [''tier'' \<mapsto> HNum 2],
              [''id'' \<mapsto> HNum 2],
              [''plan'' \<mapsto> HStr ''pro'', ''user'' \<mapsto> HRef (Suc (Suc 0))]]"
    unfolding sample_first_read snd_conv
    by (simp add: contents_def sample_store_def assign_key_def)
  show ?thesis
    unfolding m
    by (simp add: sample_first_read sample_read spread_def new_object_def property_def
        contents_def sample_store_def)
qed

end
